theory Spec2Isabelle
  imports Complex_Main
begin

section \<open>Conventions of the embedding\<close>

text \<open>
  The development embeds \<^verbatim>\<open>src/hello_world/smart.py\<close>.

  \<^item> Python's \<^verbatim>\<open>int\<close> is unbounded: counts are \<open>nat\<close>, other integers \<open>int\<close>.
  \<^item> Python's \<^verbatim>\<open>float\<close> is a \<open>real\<close> within the range of a double: the rounding of
    IEEE doubles is outside the model, but a result that does not fit a double raises
    \<^verbatim>\<open>OverflowError\<close>, as in the code.
  \<^item> The calls into the standard library (\<^verbatim>\<open>re\<close>, \<^verbatim>\<open>int\<close>, \<^verbatim>\<open>statistics\<close>, \<^verbatim>\<open>math\<close>) behave
    as in CPython 3.11.
  \<^item> A text is a \<open>string\<close>, one \<open>char\<close> per code point below 256. In that range the
    class \<^verbatim>\<open>\d\<close> of Python's \<^verbatim>\<open>re\<close> is exactly \<^verbatim>\<open>0-9\<close>.
  \<^item> An exception is a value of \<open>py_exc\<close>; a call that may raise returns
    \<open>py_exc + 'a\<close>, with \<open>Inl\<close> for the exception.
  \<^item> A report is the list of its statements, one constructor for each literal or
    f-string that the source appends; the rendering of numbers into text and the final
    \<^verbatim>\<open>"\n".join\<close> are not modelled, except where the rendering itself raises.
\<close>

datatype py_exc =
    KeyboardInterrupt
  | ProcessLookupError
  | TimeoutExpired string
  | ValueError
  | StatisticsError
  | ZeroDivisionError
  | OverflowError
  | OtherException

text \<open>
  \<open>TimeoutExpired\<close> carries the output that \<^verbatim>\<open>communicate\<close> had captured when the
  timeout struck (the exception's \<^verbatim>\<open>output\<close> attribute). \<open>OtherException\<close> stands for
  any further subclass of \<^verbatim>\<open>Exception\<close>. \<^verbatim>\<open>KeyboardInterrupt\<close> derives from
  \<^verbatim>\<open>BaseException\<close> only, so \<^verbatim>\<open>except Exception\<close> does not catch it.
\<close>

fun is_Exception :: "py_exc \<Rightarrow> bool" where
  "is_Exception KeyboardInterrupt = False"
| "is_Exception _ = True"

section \<open>Anomaly detection: \<^verbatim>\<open>perform_ml_analysis\<close>\<close>

datatype ml_insight =
    MLAlertAnomalous
  | MLAppearsNormal
  | MLDebugTrainingSamples nat
  | MLDebugCurrentVector "real list"
  | MLNotEnoughData
  | MLDebugSamplesSoFar nat
  | MLEncounteredError py_exc

datatype ml_report =
    MLModuleNotAvailable
  | MLLines "ml_insight list"

text \<open>
  The isolation forest is an external library. It enters as a parameter: \<open>None\<close> when
  the import failed (\<^verbatim>\<open>IsolationForest = None\<close>), otherwise a function standing for
  \<^verbatim>\<open>clf.fit(aggregated_features)\<close> followed by \<^verbatim>\<open>clf.predict([feature_vector])[0]\<close>, which
  returns the prediction or raises.
\<close>

type_synonym isolation_forest = "real list list \<Rightarrow> real list \<Rightarrow> py_exc + int"

definition perform_ml_analysis ::
  "isolation_forest option \<Rightarrow> real list \<Rightarrow> real list list \<Rightarrow> py_exc + ml_report" where
  "perform_ml_analysis forest feature_vector aggregated_features =
     (case forest of
        None \<Rightarrow> Inr MLModuleNotAvailable
      | Some clf \<Rightarrow>
          if length aggregated_features \<ge> 10 then
            (case clf aggregated_features feature_vector of
               Inl e \<Rightarrow>
                 if is_Exception e then Inr (MLLines [MLEncounteredError e]) else Inl e
             | Inr prediction \<Rightarrow>
                 Inr (MLLines
                   [if prediction = - 1 then MLAlertAnomalous else MLAppearsNormal,
                    MLDebugTrainingSamples (length aggregated_features),
                    MLDebugCurrentVector feature_vector]))
          else
            Inr (MLLines
              [MLNotEnoughData, MLDebugSamplesSoFar (length aggregated_features)]))"

section \<open>Pattern scans: \<^verbatim>\<open>re.findall\<close>\<close>

text \<open>
  \<^verbatim>\<open>re.findall\<close> scans the text from left to right. At each position it tries the
  pattern; a match is recorded and the scan resumes right after it, otherwise the scan
  moves one character on. A pattern is given by a function that tries it at the head of
  the remaining text and returns what \<^verbatim>\<open>findall\<close> records together with the length of
  the match. The counter of \<open>findall_from\<close> is the number of characters still covered by
  the last match.
\<close>

fun findall_from :: "(string \<Rightarrow> ('a \<times> nat) option) \<Rightarrow> nat \<Rightarrow> string \<Rightarrow> 'a list" where
  "findall_from m covered [] = []"
| "findall_from m covered (c # cs) =
     (if covered > 0 then findall_from m (covered - 1) cs
      else (case m (c # cs) of
              Some (g, len) \<Rightarrow> g # findall_from m (len - 1) cs
            | None \<Rightarrow> findall_from m 0 cs))"

definition findall :: "(string \<Rightarrow> ('a \<times> nat) option) \<Rightarrow> string \<Rightarrow> 'a list" where
  "findall m output = findall_from m 0 output"

fun strip_prefix :: "string \<Rightarrow> string \<Rightarrow> string option" where
  "strip_prefix [] s = Some s"
| "strip_prefix (p # ps) [] = None"
| "strip_prefix (p # ps) (c # cs) = (if p = c then strip_prefix ps cs else None)"

definition is_digit :: "char \<Rightarrow> bool" where
  "is_digit c = (c \<in> set ''0123456789'')"

definition is_hex_digit :: "char \<Rightarrow> bool" where
  "is_hex_digit c = (c \<in> set ''0123456789abcdefABCDEF'')"

text \<open>
  \<^verbatim>\<open>Iteration (\d+):\<close> The greedy \<^verbatim>\<open>\d+\<close> takes every digit; giving one back never helps,
  since the character after a shorter run is a digit and not the colon.
\<close>

definition match_iteration :: "string \<Rightarrow> (string \<times> nat) option" where
  "match_iteration s =
     (case strip_prefix ''Iteration '' s of
        None \<Rightarrow> None
      | Some r \<Rightarrow>
          (let ds = takeWhile is_digit r in
           if ds \<noteq> [] \<and> strip_prefix '':'' (dropWhile is_digit r) \<noteq> None
           then Some (ds, length ''Iteration '' + length ds + length '':'')
           else None))"

text \<open>\<^verbatim>\<open>Caught segmentation fault\<close>\<close>

definition match_segfault :: "string \<Rightarrow> (string \<times> nat) option" where
  "match_segfault s =
     (case strip_prefix ''Caught segmentation fault'' s of
        None \<Rightarrow> None
      | Some r \<Rightarrow> Some (''Caught segmentation fault'', length ''Caught segmentation fault''))"

text \<open>\<^verbatim>\<open>Allocating (\d+) bytes\<close>\<close>

definition match_allocating :: "string \<Rightarrow> (string \<times> nat) option" where
  "match_allocating s =
     (case strip_prefix ''Allocating '' s of
        None \<Rightarrow> None
      | Some r \<Rightarrow>
          (let ds = takeWhile is_digit r in
           if ds \<noteq> [] \<and> strip_prefix '' bytes'' (dropWhile is_digit r) \<noteq> None
           then Some (ds, length ''Allocating '' + length ds + length '' bytes'')
           else None))"

text \<open>\<^verbatim>\<open>0x[0-9a-fA-F]+\<close> The pattern has no group: the whole match is recorded.\<close>

definition match_hex :: "string \<Rightarrow> (string \<times> nat) option" where
  "match_hex s =
     (case strip_prefix ''0x'' s of
        None \<Rightarrow> None
      | Some r \<Rightarrow>
          (let ds = takeWhile is_hex_digit r in
           if ds \<noteq> [] then Some (''0x'' @ ds, length ''0x'' + length ds) else None))"

subsection \<open>\<^verbatim>\<open>int(x)\<close> and \<^verbatim>\<open>int(addr, 16)\<close>\<close>

text \<open>
  Both conversions are applied to matches of the patterns above only: a non-empty run
  of decimal digits, and \<^verbatim>\<open>0x\<close> followed by a non-empty run of hexadecimal digits (the
  prefix is accepted and skipped by \<^verbatim>\<open>int(addr, 16)\<close>); lemmas
  \<open>allocating_groups_are_digits\<close> and \<open>hex_tokens_shape\<close> below show that nothing else
  reaches them. On a run of more than 4300 decimal digits \<^verbatim>\<open>int(x)\<close> raises
  \<^verbatim>\<open>ValueError\<close> (the default limit of \<^verbatim>\<open>sys.set_int_max_str_digits\<close>, leading zeros
  counted); base 16 has no such limit.
\<close>

definition digit_value :: "char \<Rightarrow> nat" where
  "digit_value c =
     (let n = of_char c in
      if 97 \<le> n then n - 87 else if 65 \<le> n then n - 55 else n - 48)"

definition decimal_value :: "string \<Rightarrow> int" where
  "decimal_value x = foldl (\<lambda>acc c. 10 * acc + int (digit_value c)) 0 x"

definition int_of_decimal :: "string \<Rightarrow> py_exc + int" where
  "int_of_decimal x = (if length x > 4300 then Inl ValueError else Inr (decimal_value x))"

definition int_of_hex :: "string \<Rightarrow> int" where
  "int_of_hex addr = foldl (\<lambda>acc c. 16 * acc + int (digit_value c)) 0 (drop 2 addr)"

section \<open>Arithmetic and \<^verbatim>\<open>statistics\<close>\<close>

definition bind_exc :: "py_exc + 'a \<Rightarrow> ('a \<Rightarrow> py_exc + 'b) \<Rightarrow> py_exc + 'b" where
  "bind_exc r f = (case r of Inl e \<Rightarrow> Inl e | Inr v \<Rightarrow> f v)"

text \<open>A list comprehension whose element expression may raise: the first exception wins.\<close>

fun map_exc :: "('a \<Rightarrow> py_exc + 'b) \<Rightarrow> 'a list \<Rightarrow> py_exc + 'b list" where
  "map_exc f [] = Inr []"
| "map_exc f (x # xs) =
     bind_exc (f x) (\<lambda>y.
     bind_exc (map_exc f xs) (\<lambda>ys.
     Inr (y # ys)))"

text \<open>
  The conversion of an exact quotient or root to a \<^verbatim>\<open>float\<close>. The largest double is
  [2^1024 - 2^971]; rounding to nearest takes every value from [2^1024 - 2^970] on
  beyond it, and there the conversion raises \<^verbatim>\<open>OverflowError\<close>.
\<close>

definition float_overflow :: real where
  "float_overflow = 2 ^ 1024 - 2 ^ 970"

definition py_float :: "real \<Rightarrow> py_exc + real" where
  "py_float q = (if \<bar>q\<bar> \<ge> float_overflow then Inl OverflowError else Inr q)"

text \<open>\<^verbatim>\<open>a / b\<close> on integers: true division.\<close>

definition py_truediv :: "int \<Rightarrow> int \<Rightarrow> py_exc + real" where
  "py_truediv a b =
     (if b = 0 then Inl ZeroDivisionError else py_float (real_of_int a / real_of_int b))"

text \<open>\<^verbatim>\<open>math.log2\<close> raises on an argument that is not positive.\<close>

definition py_log2 :: "real \<Rightarrow> py_exc + real" where
  "py_log2 x = (if x \<le> 0 then Inl ValueError else Inr (log 2 x))"

text \<open>
  A number that \<^verbatim>\<open>statistics\<close> returns for integer data is an \<^verbatim>\<open>int\<close> or a \<^verbatim>\<open>float\<close>;
  the difference matters where the number is formatted.
\<close>

datatype py_number = PyInt int | PyFloat real

text \<open>
  \<^verbatim>\<open>statistics.mean\<close> computes the exact fraction [sum / n] and converts it to the type of
  the data when the fraction is whole, to \<^verbatim>\<open>float\<close> otherwise.
\<close>

definition py_mean :: "int list \<Rightarrow> py_exc + py_number" where
  "py_mean xs =
     (if xs = [] then Inl StatisticsError
      else (let tot = sum_list xs; n = int (length xs) in
            if tot mod n = 0 then Inr (PyInt (tot div n))
            else bind_exc (py_float (real_of_int tot / real_of_int n)) (\<lambda>m.
                 Inr (PyFloat m))))"

text \<open>
  \<^verbatim>\<open>statistics.median\<close>: the middle element of the sorted data, or for an even number
  of elements the true division by 2 of the sum of the two middle ones (a \<^verbatim>\<open>float\<close>).
\<close>

definition py_median :: "int list \<Rightarrow> py_exc + py_number" where
  "py_median xs =
     (if xs = [] then Inl StatisticsError
      else (let d = sort xs; n = length d in
            if n mod 2 = 1 then Inr (PyInt (d ! (n div 2)))
            else bind_exc (py_truediv (d ! (n div 2 - 1) + d ! (n div 2)) 2) (\<lambda>m.
                 Inr (PyFloat m))))"

text \<open>
  \<^verbatim>\<open>statistics.stdev\<close>: the square root of the sample variance, the exact sum of squared
  deviations from the mean divided by [n - 1]. The variance is an exact fraction; its
  root is what is converted to a \<^verbatim>\<open>float\<close>.
\<close>

definition sample_variance :: "int list \<Rightarrow> real" where
  "sample_variance xs =
     (let n = length xs; xbar = real_of_int (sum_list xs) / real n in
      (\<Sum>x\<leftarrow>xs. (real_of_int x - xbar)\<^sup>2) / real (n - 1))"

definition py_stdev :: "int list \<Rightarrow> py_exc + real" where
  "py_stdev xs =
     (if length xs < 2 then Inl StatisticsError else py_float (sqrt (sample_variance xs)))"

text \<open>\<^verbatim>\<open>min\<close> and \<^verbatim>\<open>max\<close> raise on an empty list.\<close>

definition py_min :: "int list \<Rightarrow> py_exc + int" where
  "py_min xs = (case xs of [] \<Rightarrow> Inl ValueError | x # r \<Rightarrow> Inr (fold min r x))"

definition py_max :: "int list \<Rightarrow> py_exc + int" where
  "py_max xs = (case xs of [] \<Rightarrow> Inl ValueError | x # r \<Rightarrow> Inr (fold max r x))"

section \<open>\<^verbatim>\<open>calculate_entropy\<close>\<close>

text \<open>
  A \<^verbatim>\<open>dict\<close> keeps its keys in the order of their first insertion: an association
  list in which an update of a present key keeps its place and a new key goes last.
\<close>

fun dict_get :: "('k \<times> 'v) list \<Rightarrow> 'k \<Rightarrow> 'v \<Rightarrow> 'v" where
  "dict_get [] k d = d"
| "dict_get ((k', v) # kvs) k d = (if k' = k then v else dict_get kvs k d)"

fun dict_set :: "('k \<times> 'v) list \<Rightarrow> 'k \<Rightarrow> 'v \<Rightarrow> ('k \<times> 'v) list" where
  "dict_set [] k v = [(k, v)]"
| "dict_set ((k', v') # kvs) k v =
     (if k' = k then (k, v) # kvs else (k', v') # dict_set kvs k v)"

text \<open>\<^verbatim>\<open>for addr in address_list: frequency[addr] = frequency.get(addr, 0) + 1\<close>\<close>

fun count_frequency :: "('k \<times> nat) list \<Rightarrow> 'k list \<Rightarrow> ('k \<times> nat) list" where
  "count_frequency frequency [] = frequency"
| "count_frequency frequency (addr # rest) =
     count_frequency (dict_set frequency addr (dict_get frequency addr 0 + 1)) rest"

text \<open>\<^verbatim>\<open>for count in frequency.values(): p = count / total; entropy -= p * math.log2(p)\<close>\<close>

fun entropy_loop :: "nat \<Rightarrow> real \<Rightarrow> nat list \<Rightarrow> py_exc + real" where
  "entropy_loop tot entropy [] = Inr entropy"
| "entropy_loop tot entropy (cnt # counts) =
     bind_exc (py_truediv (int cnt) (int tot)) (\<lambda>p.
     bind_exc (py_log2 p) (\<lambda>l.
     entropy_loop tot (entropy - p * l) counts))"

definition calculate_entropy :: "'k list \<Rightarrow> py_exc + real" where
  "calculate_entropy address_list =
     (if address_list = [] then Inr 0
      else (let tot = length address_list;
                frequency = count_frequency [] address_list
            in entropy_loop tot 0 (map snd frequency)))"

section \<open>\<^verbatim>\<open>extract_features\<close>\<close>

definition extract_features :: "string \<Rightarrow> py_exc + real list" where
  "extract_features output =
     (let num_iterations = length (findall match_iteration output);
          num_segfaults = length (findall match_segfault output)
      in
      bind_exc (if num_iterations > 0
                then py_truediv (int num_segfaults) (int num_iterations)
                else Inr 0) (\<lambda>segfault_ratio.
      bind_exc (map_exc int_of_decimal (findall match_allocating output)) (\<lambda>allocation_sizes.
      bind_exc (if allocation_sizes \<noteq> []
                then bind_exc (py_truediv (sum_list allocation_sizes)
                                 (int (length allocation_sizes))) (\<lambda>avg_alloc.
                     bind_exc (if length allocation_sizes > 1
                               then py_stdev allocation_sizes
                               else Inr 0) (\<lambda>stdev_alloc.
                     Inr (avg_alloc, stdev_alloc)))
                else Inr (0, 0)) (\<lambda>(avg_alloc, stdev_alloc).
      let hex_addresses = findall match_hex output in
      bind_exc (if hex_addresses \<noteq> []
                then (let addresses_int = map int_of_hex hex_addresses in
                      bind_exc (calculate_entropy addresses_int) (\<lambda>hex_entropy.
                      Inr (hex_entropy, card (set addresses_int))))
                else Inr (0, 0)) (\<lambda>(hex_entropy, unique_hex_count).
      Inr [segfault_ratio, avg_alloc, stdev_alloc, hex_entropy, real unique_hex_count])))))"

section \<open>\<^verbatim>\<open>interpret_address\<close>\<close>

definition interpret_address :: "int \<Rightarrow> string" where
  "interpret_address addr =
     (if addr = 0 then ''NULL pointer''
      else if 0x7ff000000000 \<le> addr \<and> addr \<le> 0x7fffffffffff then ''Likely a stack address''
      else if 0x400000 \<le> addr \<and> addr < 0x800000
        then ''Likely an address in the code (text) segment''
      else if 0x100000000 \<le> addr \<and> addr < 0x7ff000000000
        then ''Likely a heap or global variable address''
      else ''Unknown memory region'')"

section \<open>\<^verbatim>\<open>analyze_scan_output\<close>\<close>

text \<open>One constructor for each statement that the function appends to \<^verbatim>\<open>insights\<close>.\<close>

datatype insight =
    TotalIterations nat
  | NumberOfSegfaults nat
  | SuccessfulIterations int
  | SegfaultRatio real
  | NoIterationsDetected
  | AverageAllocated real
  | AllocationRange int int
  | StdevAllocated real
  | MedianAllocated py_number
  | InsufficientAllocationData
  | NoAllocationData
  | TotalHexAddresses nat
  | UniqueHexAddresses nat
  | AverageHexAddress int
  | MedianHexAddress int
  | StdevHexAddress real
  | InsufficientHexData
  | EntropyOfHexAddresses real
  | NotEnoughHexData
  | NoHexAddressesFound
  | RepetitiveAlert
  | AddressAppeared string nat
  | NoRepetitivePatterns
  | HighSegfaultWarning
  | SegfaultFrequencyExpected
  | InterpretationsHeader
  | AddressInterpretation string string
  | NullPointerDetected
  | NoAddressesForInterpretation
  | NullPageMappingSuccessful
  | NullPageMappingFailed
  | NullPageMappingNotDetected

text \<open>\<^verbatim>\<open>needle in haystack\<close> on strings.\<close>

fun contains :: "string \<Rightarrow> string \<Rightarrow> bool" where
  "contains needle [] = (needle = [])"
| "contains needle (c # cs) = (strip_prefix needle (c # cs) \<noteq> None \<or> contains needle cs)"

text \<open>
  The format code \<^verbatim>\<open>x\<close> of \<^verbatim>\<open>f"0x{avg_addr:016x}"\<close> is defined for \<^verbatim>\<open>int\<close>; on a
  \<^verbatim>\<open>float\<close> the formatting raises \<^verbatim>\<open>ValueError\<close>.
\<close>

definition format_x :: "py_number \<Rightarrow> py_exc + int" where
  "format_x v = (case v of PyInt i \<Rightarrow> Inr i | PyFloat r \<Rightarrow> Inl ValueError)"

text \<open>1. Iteration count analysis and 2. segmentation fault analysis.\<close>

definition segfault_analysis :: "nat \<Rightarrow> nat \<Rightarrow> py_exc + insight list" where
  "segfault_analysis num_iterations num_segfaults =
     (if num_iterations > 0 then
        bind_exc (py_truediv (int num_segfaults) (int num_iterations)) (\<lambda>segfault_ratio.
        Inr [SuccessfulIterations (int num_iterations - int num_segfaults),
             SegfaultRatio segfault_ratio])
      else Inr [NoIterationsDetected])"

text \<open>3. Memory allocation analysis.\<close>

definition allocation_analysis :: "int list \<Rightarrow> py_exc + insight list" where
  "allocation_analysis allocation_sizes =
     (if allocation_sizes \<noteq> [] then
        bind_exc (py_truediv (sum_list allocation_sizes) (int (length allocation_sizes)))
          (\<lambda>avg_alloc.
        bind_exc (py_min allocation_sizes) (\<lambda>min_alloc.
        bind_exc (py_max allocation_sizes) (\<lambda>max_alloc.
        bind_exc (if length allocation_sizes > 1 then
                    bind_exc (py_stdev allocation_sizes) (\<lambda>stdev_alloc.
                    bind_exc (py_median allocation_sizes) (\<lambda>median_alloc.
                    Inr [StdevAllocated stdev_alloc, MedianAllocated median_alloc]))
                  else Inr [InsufficientAllocationData]) (\<lambda>more.
        Inr ([AverageAllocated avg_alloc, AllocationRange min_alloc max_alloc] @ more)))))
      else Inr [NoAllocationData])"

text \<open>
  4. Hexadecimal address analysis. The body of the \<^verbatim>\<open>try\<close> computes the three
  statistics and then appends one line after the other; a line appended before an
  exception stays in the report, and \<^verbatim>\<open>except Exception\<close> appends its own line.
  \<open>hex_statistics_try\<close> returns the lines appended and the exception raised, if any.
\<close>

definition hex_statistics_try :: "int list \<Rightarrow> insight list \<times> py_exc option" where
  "hex_statistics_try addresses_int =
     (case py_mean addresses_int of Inl e \<Rightarrow> ([], Some e) | Inr avg_addr \<Rightarrow>
      case py_stdev addresses_int of Inl e \<Rightarrow> ([], Some e) | Inr std_dev_addr \<Rightarrow>
      case py_median addresses_int of Inl e \<Rightarrow> ([], Some e) | Inr median_addr \<Rightarrow>
      case format_x avg_addr of Inl e \<Rightarrow> ([], Some e) | Inr avg_digits \<Rightarrow>
      case format_x median_addr of
        Inl e \<Rightarrow> ([AverageHexAddress avg_digits], Some e)
      | Inr median_digits \<Rightarrow>
          ([AverageHexAddress avg_digits, MedianHexAddress median_digits,
            StdevHexAddress std_dev_addr], None))"

definition hex_statistics :: "int list \<Rightarrow> py_exc + insight list" where
  "hex_statistics addresses_int =
     (case hex_statistics_try addresses_int of
        (appended, None) \<Rightarrow> Inr appended
      | (appended, Some e) \<Rightarrow>
          if is_Exception e then Inr (appended @ [InsufficientHexData]) else Inl e)"

definition hex_address_analysis :: "string list \<Rightarrow> py_exc + insight list" where
  "hex_address_analysis hex_addresses =
     (if hex_addresses \<noteq> [] then
        (let addresses_int = map int_of_hex hex_addresses;
             unique_addresses = set addresses_int
         in
         bind_exc (if length addresses_int > 1 then
                     bind_exc (hex_statistics addresses_int) (\<lambda>stats.
                     bind_exc (calculate_entropy addresses_int) (\<lambda>entropy.
                     Inr (stats @ [EntropyOfHexAddresses entropy])))
                   else Inr [NotEnoughHexData]) (\<lambda>more.
         Inr ([TotalHexAddresses (length hex_addresses),
               UniqueHexAddresses (card unique_addresses)] @ more)))
      else Inr [NoHexAddressesFound])"

text \<open>5. Repetitive hex address detection.\<close>

definition repetitive_address_detection :: "string list \<Rightarrow> insight list" where
  "repetitive_address_detection hex_addresses =
     (let address_frequency = count_frequency [] hex_addresses;
          repeated_addresses = filter (\<lambda>(addr, cnt). cnt > 10) address_frequency
      in if repeated_addresses \<noteq> [] then
           RepetitiveAlert # map (\<lambda>(addr, cnt). AddressAppeared addr cnt) repeated_addresses
         else [NoRepetitivePatterns])"

text \<open>6. Advanced warning checks. The \<^verbatim>\<open>and\<close> divides only when there are iterations.\<close>

definition advanced_warning_checks :: "nat \<Rightarrow> nat \<Rightarrow> py_exc + insight list" where
  "advanced_warning_checks num_iterations num_segfaults =
     bind_exc (if num_iterations > 0 then
                 bind_exc (py_truediv (int num_segfaults) (int num_iterations)) (\<lambda>ratio.
                 Inr (ratio > 3 / 10))
               else Inr False) (\<lambda>high.
     Inr [if high then HighSegfaultWarning else SegfaultFrequencyExpected])"

text \<open>
  7. Memory address interpretations. \<^verbatim>\<open>sorted(set(hex_addresses), key=...)\<close> is a stable
  sort of the distinct tokens by their numeric value. The order in which a Python set
  of strings is iterated is not fixed, so the order among tokens of equal value is not
  either; the model takes the order of \<open>remdups\<close>.
\<close>

definition address_interpretations :: "string list \<Rightarrow> insight list" where
  "address_interpretations hex_addresses =
     (if hex_addresses \<noteq> [] then
        (let unique_hex_addresses = sort_key int_of_hex (remdups hex_addresses) in
         [InterpretationsHeader]
         @ map (\<lambda>addr. AddressInterpretation addr (interpret_address (int_of_hex addr)))
             unique_hex_addresses
         @ (if ''0x0'' \<in> set hex_addresses then [NullPointerDetected] else []))
      else [NoAddressesForInterpretation])"

text \<open>8. Null page mapping check.\<close>

definition null_page_mapping_check :: "string \<Rightarrow> insight list" where
  "null_page_mapping_check output =
     (if contains ''(DEBUG) Successfully mapped null page'' output
        then [NullPageMappingSuccessful]
      else if contains ''(DEBUG) Null page mapping attempt failed'' output
        then [NullPageMappingFailed]
      else [NullPageMappingNotDetected])"

definition analyze_scan_output :: "string \<Rightarrow> py_exc + insight list" where
  "analyze_scan_output output =
     (let num_iterations = length (findall match_iteration output);
          num_segfaults = length (findall match_segfault output)
      in
      bind_exc (segfault_analysis num_iterations num_segfaults) (\<lambda>part2.
      bind_exc (map_exc int_of_decimal (findall match_allocating output)) (\<lambda>allocation_sizes.
      bind_exc (allocation_analysis allocation_sizes) (\<lambda>part3.
      let hex_addresses = findall match_hex output in
      bind_exc (hex_address_analysis hex_addresses) (\<lambda>part4.
      bind_exc (advanced_warning_checks num_iterations num_segfaults) (\<lambda>part6.
      Inr ([TotalIterations num_iterations, NumberOfSegfaults num_segfaults]
           @ part2 @ part3 @ part4
           @ repetitive_address_detection hex_addresses
           @ part6
           @ address_interpretations hex_addresses
           @ null_page_mapping_check output)))))))"

section \<open>The scan loop of \<^verbatim>\<open>main\<close>\<close>

text \<open>
  The scanner is an external process. What the operating system and the scanner do in
  one cycle enters as the results of the calls that the cycle makes, in program order:
  \<^verbatim>\<open>subprocess.Popen\<close>, \<^verbatim>\<open>time.sleep(scan_duration)\<close>, \<^verbatim>\<open>os.kill(pid, SIGTERM)\<close>,
  \<^verbatim>\<open>proc.communicate(timeout=3)\<close>, \<^verbatim>\<open>os.kill(pid, SIGKILL)\<close>, the second
  \<^verbatim>\<open>proc.communicate(timeout=3)\<close> and \<^verbatim>\<open>time.sleep(2)\<close>. A call that the cycle does not
  reach leaves its field unread. Printing is not modelled.
\<close>

record cycle_env =
  popen :: "py_exc + unit"
  sleep_scan :: "py_exc + unit"
  kill_sigterm :: "py_exc + unit"
  communicate_first :: "py_exc + string"
  kill_sigkill :: "py_exc + unit"
  communicate_final :: "py_exc + string"
  sleep_pause :: "py_exc + unit"

text \<open>
  Termination of the scanner and collection of its output: \<^verbatim>\<open>except ProcessLookupError\<close>
  around the first signal, \<^verbatim>\<open>except subprocess.TimeoutExpired\<close> around the first
  \<^verbatim>\<open>communicate\<close>, and inside its handler \<^verbatim>\<open>except Exception\<close> with \<^verbatim>\<open>stdout = ""\<close>
  around the forced termination.
\<close>

definition terminate_and_collect :: "cycle_env \<Rightarrow> py_exc + string" where
  "terminate_and_collect env =
     bind_exc (case kill_sigterm env of
                 Inl e \<Rightarrow> if e = ProcessLookupError then Inr () else Inl e
               | Inr u \<Rightarrow> Inr ()) (\<lambda>u.
     case communicate_first env of
       Inr stdout \<Rightarrow> Inr stdout
     | Inl (TimeoutExpired captured) \<Rightarrow>
         (case bind_exc (kill_sigkill env) (\<lambda>u. communicate_final env) of
            Inr stdout \<Rightarrow> Inr stdout
          | Inl e \<Rightarrow> if is_Exception e then Inr [] else Inl e)
     | Inl e \<Rightarrow> Inl e)"

text \<open>
  The convergence check on \<^verbatim>\<open>aggregated_features[-1]\<close> and \<^verbatim>\<open>aggregated_features[-2]\<close>;
  \<^verbatim>\<open>zip\<close> stops at the shorter vector.
\<close>

definition no_improvement :: "real list list \<Rightarrow> bool" where
  "no_improvement aggregated_features =
     (length aggregated_features \<ge> 2 \<and>
      (let tolerance = 1 / 10 ^ 6;
           differences =
             map (\<lambda>(x, y). \<bar>x - y\<bar>)
               (zip (last aggregated_features)
                    (aggregated_features ! (length aggregated_features - 2)))
       in list_all (\<lambda>d. d < tolerance) differences))"

record loop_state =
  aggregated_features :: "real list list"
  cycle :: nat

datatype loop_control = Break | Next_cycle

text \<open>The body of \<^verbatim>\<open>while True\<close>.\<close>

definition scan_cycle ::
  "isolation_forest option \<Rightarrow> loop_state \<Rightarrow> cycle_env \<Rightarrow> py_exc + (loop_control \<times> loop_state)"
  where
  "scan_cycle forest st env =
     bind_exc (popen env) (\<lambda>u.
     bind_exc (sleep_scan env) (\<lambda>u.
     bind_exc (terminate_and_collect env) (\<lambda>stdout.
     bind_exc (analyze_scan_output stdout) (\<lambda>analysis_report.
     bind_exc (extract_features stdout) (\<lambda>feature_vector.
     let appended = aggregated_features st @ [feature_vector] in
     bind_exc (perform_ml_analysis forest feature_vector appended) (\<lambda>ml_report.
     if no_improvement appended
     then Inr (Break, st\<lparr>aggregated_features := appended\<rparr>)
     else bind_exc (sleep_pause env) (\<lambda>u.
          Inr (Next_cycle, \<lparr>aggregated_features = appended, cycle = cycle st + 1\<rparr>))))))))"

text \<open>
  The loop runs until a \<^verbatim>\<open>break\<close> or an exception; \<^verbatim>\<open>except KeyboardInterrupt\<close> around
  it ends \<^verbatim>\<open>main\<close> quietly, any other exception leaves \<^verbatim>\<open>main\<close>. The list holds the
  environments of the cycles to come: \<open>None\<close> says that the loop is still running
  when the list is used up, and a result carries the environments of the cycles that
  were never started. The state of the loop is reported at the \<^verbatim>\<open>break\<close>.
\<close>

datatype loop_exit = Quit_no_improvement loop_state | Interrupted_by_user | Uncaught py_exc

fun scan_loop ::
  "isolation_forest option \<Rightarrow> loop_state \<Rightarrow> cycle_env list \<Rightarrow>
     (loop_exit \<times> cycle_env list) option" where
  "scan_loop forest st [] = None"
| "scan_loop forest st (env # envs) =
     (case scan_cycle forest st env of
        Inl e \<Rightarrow> Some (if e = KeyboardInterrupt then Interrupted_by_user else Uncaught e, envs)
      | Inr (Break, st') \<Rightarrow> Some (Quit_no_improvement st', envs)
      | Inr (Next_cycle, st') \<Rightarrow> scan_loop forest st' envs)"

definition main_scan ::
  "isolation_forest option \<Rightarrow> cycle_env list \<Rightarrow> (loop_exit \<times> cycle_env list) option" where
  "main_scan forest envs = scan_loop forest \<lparr>aggregated_features = [], cycle = 0\<rparr> envs"

section \<open>A classification of the report lines\<close>

text \<open>
  Not part of the program: the statements that sections 5 and 7 of
  \<open>analyze_scan_output\<close> can append are told apart from all the others, to locate a
  statement in the report.
\<close>

fun address_section_line :: "insight \<Rightarrow> bool" where
  "address_section_line RepetitiveAlert = True"
| "address_section_line (AddressAppeared addr cnt) = True"
| "address_section_line NoRepetitivePatterns = True"
| "address_section_line InterpretationsHeader = True"
| "address_section_line (AddressInterpretation addr interpretation) = True"
| "address_section_line NullPointerDetected = True"
| "address_section_line NoAddressesForInterpretation = True"
| "address_section_line _ = False"

section \<open>Properties of the embedding\<close>

subsection \<open>The scans and the conversions\<close>

lemma findall_from_sound:
  "g \<in> set (findall_from m k s) \<Longrightarrow> \<exists>s' n. m s' = Some (g, n)"
  by (induction s arbitrary: k) (auto split: if_splits option.splits)

lemma findall_sound: "g \<in> set (findall m s) \<Longrightarrow> \<exists>s' n. m s' = Some (g, n)"
  unfolding findall_def by (rule findall_from_sound)

lemma match_allocating_digits:
  "match_allocating s = Some (g, n) \<Longrightarrow> g \<noteq> [] \<and> list_all is_digit g"
  by (auto simp: match_allocating_def Let_def list_all_iff split: option.splits if_splits dest: set_takeWhileD)

lemma match_hex_shape:
  "match_hex s = Some (g, n) \<Longrightarrow> \<exists>ds. g = ''0x'' @ ds \<and> ds \<noteq> [] \<and> list_all is_hex_digit ds"
  by (auto simp: match_hex_def Let_def list_all_iff split: option.splits if_splits dest: set_takeWhileD)

lemma allocating_groups_are_digits:
  assumes "g \<in> set (findall match_allocating output)"
  shows "g \<noteq> [] \<and> list_all is_digit g"
proof -
  from findall_sound [OF assms] obtain s' n where "match_allocating s' = Some (g, n)"
    by blast
  then show ?thesis by (rule match_allocating_digits)
qed

lemma hex_tokens_shape:
  assumes "g \<in> set (findall match_hex output)"
  shows "\<exists>ds. g = ''0x'' @ ds \<and> ds \<noteq> [] \<and> list_all is_hex_digit ds"
proof -
  from findall_sound [OF assms] obtain s' n where "match_hex s' = Some (g, n)"
    by blast
  then show ?thesis by (rule match_hex_shape)
qed

lemma findall_from_length: "length (findall_from m k s) \<le> length s"
proof (induction s arbitrary: k)
  case Nil
  show ?case by simp
next
  case (Cons c cs)
  have "length (findall_from m j cs) \<le> Suc (length cs)" for j
    using Cons.IH [of j] by simp
  then show ?case using Cons.IH by (auto split: option.splits)
qed

lemma findall_length: "length (findall m s) \<le> length s"
  unfolding findall_def by (rule findall_from_length)

lemma foldl_digits_nonneg:
  "0 \<le> acc \<Longrightarrow> 0 \<le> b \<Longrightarrow> 0 \<le> foldl (\<lambda>acc c. b * acc + int (digit_value c)) acc x"
  by (induction x arbitrary: acc) auto

lemma decimal_value_nonneg: "0 \<le> decimal_value x"
  unfolding decimal_value_def by (rule foldl_digits_nonneg) simp_all

lemma int_of_hex_nonneg: "0 \<le> int_of_hex x"
  unfolding int_of_hex_def by (rule foldl_digits_nonneg) simp_all

lemma int_of_decimal_nonneg: "int_of_decimal x = Inr v \<Longrightarrow> 0 \<le> v"
  by (auto simp: int_of_decimal_def decimal_value_nonneg split: if_splits)

lemma map_exc_Inr: "map_exc f xs = Inr ys \<longleftrightarrow> list_all2 (\<lambda>x y. f x = Inr y) xs ys"
proof (induction xs arbitrary: ys)
  case Nil
  show ?case by auto
next
  case (Cons x xs)
  show ?case
    by (cases "f x"; cases "map_exc f xs"; cases ys)
       (auto simp: bind_exc_def Cons.IH [symmetric])
qed

lemma map_exc_length: "map_exc f xs = Inr ys \<Longrightarrow> length ys = length xs"
  by (simp add: map_exc_Inr list_all2_lengthD)

lemma map_exc_empty: "map_exc f xs = Inr ys \<Longrightarrow> ys = [] \<longleftrightarrow> xs = []"
  using map_exc_length [of f xs ys] by auto

lemma map_int_of_decimal_nonneg:
  "map_exc int_of_decimal gs = Inr sizes \<Longrightarrow> list_all (\<lambda>s. 0 \<le> s) sizes"
  unfolding map_exc_Inr
  by (induction gs sizes rule: list_all2_induct) (auto dest: int_of_decimal_nonneg)

lemma float_overflow_gt_1: "1 < float_overflow"
  by (simp add: float_overflow_def)

lemma py_float_in_range: "\<bar>q\<bar> < float_overflow \<Longrightarrow> py_float q = Inr q"
  by (simp add: py_float_def)

lemma py_float_Inr: "py_float q = Inr r \<Longrightarrow> r = q"
  by (auto simp: py_float_def split: if_splits)

lemma py_truediv_Inr: "py_truediv a b = Inr r \<Longrightarrow> r = real_of_int a / real_of_int b"
  by (auto simp: py_truediv_def dest: py_float_Inr split: if_splits)

subsection \<open>The frequency count and the entropy\<close>

lemma dict_get_map_of: "dict_get al k d = (case map_of al k of None \<Rightarrow> d | Some v \<Rightarrow> v)"
  by (induction al) auto

lemma map_of_dict_set: "map_of (dict_set al k v) = (map_of al)(k \<mapsto> v)"
  by (induction al) auto

lemma keys_dict_set:
  "map fst (dict_set al k v) = (if map_of al k = None then map fst al @ [k] else map fst al)"
  by (induction al) auto

lemma fst_set_dict_set: "fst ` set (dict_set al k v) = insert k (fst ` set al)"
proof -
  have "set (map fst (dict_set al k v)) = insert k (set (map fst al))"
  proof (cases "map_of al k")
    case None
    then show ?thesis by (simp add: keys_dict_set)
  next
    case (Some w)
    then have "(k, w) \<in> set al" by (rule map_of_SomeD)
    then have "k \<in> fst ` set al" by force
    with Some show ?thesis by (auto simp: keys_dict_set)
  qed
  then show ?thesis by simp
qed

lemma distinct_dict_set: "distinct (map fst al) \<Longrightarrow> distinct (map fst (dict_set al k v))"
proof (cases "map_of al k")
  case None
  assume "distinct (map fst al)"
  moreover from None have "k \<notin> fst ` set al" by (simp add: map_of_eq_None_iff)
  ultimately show ?thesis using None by (simp add: keys_dict_set)
next
  case (Some w)
  assume "distinct (map fst al)"
  with Some show ?thesis by (simp add: keys_dict_set)
qed

lemma count_frequency_distinct:
  "distinct (map fst f) \<Longrightarrow> distinct (map fst (count_frequency f xs))"
  by (induction xs arbitrary: f) (simp_all add: distinct_dict_set)

lemma count_frequency_map_of:
  "map_of (count_frequency f xs) k =
     (if k \<in> set xs \<or> k \<in> fst ` set f then Some (dict_get f k 0 + count_list xs k) else None)"
proof (induction xs arbitrary: f)
  case Nil
  show ?case
    by (auto simp: dict_get_map_of map_of_eq_None_iff split: option.splits)
next
  case (Cons x xs)
  show ?case
    by (simp add: Cons.IH fst_set_dict_set) (auto simp: dict_get_map_of map_of_dict_set)
qed

lemma count_frequency_set:
  "set (count_frequency [] xs) = (\<lambda>k. (k, count_list xs k)) ` set xs"
proof -
  have d: "distinct (map fst (count_frequency [] xs))"
    by (rule count_frequency_distinct) simp
  have "(k, v) \<in> set (count_frequency [] xs) \<longleftrightarrow> k \<in> set xs \<and> v = count_list xs k" for k v
  proof -
    have "(k, v) \<in> set (count_frequency [] xs) \<longleftrightarrow> map_of (count_frequency [] xs) k = Some v"
      using map_of_eq_Some_iff [OF d] by simp
    also have "\<dots> \<longleftrightarrow> k \<in> set xs \<and> v = count_list xs k"
      by (auto simp: count_frequency_map_of)
    finally show ?thesis .
  qed
  then show ?thesis by auto
qed

lemma entropy_loop_eq:
  assumes "0 < tot" and "\<forall>c\<in>set cs. 0 < c \<and> c \<le> tot"
  shows "entropy_loop tot e cs =
           Inr (e - (\<Sum>c\<leftarrow>cs. (real c / real tot) * log 2 (real c / real tot)))"
  using assms
proof (induction cs arbitrary: e)
  case Nil
  then show ?case by simp
next
  case (Cons c cs)
  from Cons.prems have "0 < real c / real tot" by simp
  then have p: "\<not> real c / real tot \<le> 0" by simp
  from Cons.prems have "real c / real tot \<le> 1" by simp
  with \<open>0 < real c / real tot\<close> have "\<bar>real c / real tot\<bar> < float_overflow"
    using float_overflow_gt_1 by simp
  then have f: "py_float (real c / real tot) = Inr (real c / real tot)"
    by (rule py_float_in_range)
  from Cons.prems have "\<forall>c\<in>set cs. 0 < c \<and> c \<le> tot" by simp
  from Cons.IH [OF Cons.prems(1) this] Cons.prems(1) p f show ?case
    by (simp add: bind_exc_def py_truediv_def py_log2_def)
qed

lemma calculate_entropy_eq:
  "calculate_entropy xs =
     Inr (- (\<Sum>k\<in>set xs. (real (count_list xs k) / real (length xs)) *
              log 2 (real (count_list xs k) / real (length xs))))"
proof (cases "xs = []")
  case True
  then show ?thesis by (simp add: calculate_entropy_def)
next
  case False
  let ?al = "count_frequency [] xs"
  let ?f = "\<lambda>c::nat. (real c / real (length xs)) * log 2 (real c / real (length xs))"
  have d: "distinct ?al"
    using count_frequency_distinct [of "[]" xs] by (simp add: distinct_map)
  have pos: "\<forall>c\<in>set (map snd ?al). 0 < c \<and> c \<le> length xs"
    using count_list_0_iff [of xs] count_le_length [of xs]
    by (fastforce simp: count_frequency_set)
  have "(\<Sum>c\<leftarrow>map snd ?al. ?f c) = (\<Sum>p\<leftarrow>?al. ?f (snd p))"
    by (simp add: comp_def)
  also have "\<dots> = (\<Sum>p\<in>set ?al. ?f (snd p))"
    using d by (rule sum_list_distinct_conv_sum_set)
  also have "\<dots> = (\<Sum>k\<in>set xs. ?f (count_list xs k))"
    unfolding count_frequency_set
    by (subst sum.reindex) (auto simp: inj_on_def)
  finally have s: "(\<Sum>c\<leftarrow>map snd ?al. ?f c) = (\<Sum>k\<in>set xs. ?f (count_list xs k))" .
  from False have "0 < length xs" by simp
  then have e: "entropy_loop (length xs) 0 (map snd ?al) = Inr (0 - (\<Sum>c\<leftarrow>map snd ?al. ?f c))"
    using pos by (rule entropy_loop_eq)
  have "calculate_entropy xs = entropy_loop (length xs) 0 (map snd ?al)"
    using False by (simp add: calculate_entropy_def Let_def)
  also have "\<dots> = Inr (0 - (\<Sum>k\<in>set xs. ?f (count_list xs k)))"
    unfolding e s ..
  finally show ?thesis by simp
qed

lemma count_list_distinct: "distinct xs \<Longrightarrow> x \<in> set xs \<Longrightarrow> count_list xs x = 1"
  by (induction xs) (auto simp: count_list_0_iff)

lemma entropy_term_nonpos:
  assumes "0 < c" and "c \<le> n"
  shows "(real c / real n) * log 2 (real c / real n) \<le> 0"
proof -
  from assms have p: "0 < real c / real n" "real c / real n \<le> 1" by simp_all
  then have "log 2 (real c / real n) \<le> 0" by simp
  moreover from p(1) have "0 \<le> real c / real n" by simp
  ultimately show ?thesis by (rule mult_nonneg_nonpos [rotated])
qed

lemma entropy_sum_nonpos:
  "(\<Sum>k\<in>set xs. (real (count_list xs k) / real (length xs)) *
       log 2 (real (count_list xs k) / real (length xs))) \<le> 0"
proof (rule sum_nonpos)
  fix k assume "k \<in> set xs"
  then have "0 < count_list xs k" using count_list_0_iff [of xs k] by simp
  then show "(real (count_list xs k) / real (length xs)) *
       log 2 (real (count_list xs k) / real (length xs)) \<le> 0"
    using count_le_length [of xs k] by (rule entropy_term_nonpos)
qed

lemma sample_variance_nonneg: "0 \<le> sample_variance xs"
  unfolding sample_variance_def Let_def
  by (intro divide_nonneg_nonneg sum_list_nonneg) auto

lemma py_stdev_Inr: "py_stdev xs = Inr r \<Longrightarrow> r = sqrt (sample_variance xs)"
  by (auto simp: py_stdev_def dest: py_float_Inr split: if_splits)

lemma extract_features_Inr:
  assumes "extract_features output = Inr v"
  shows "\<exists>sizes. map_exc int_of_decimal (findall match_allocating output) = Inr sizes \<and>
     v = [if length (findall match_iteration output) > 0
            then real (length (findall match_segfault output)) /
                 real (length (findall match_iteration output))
            else 0,
          if sizes \<noteq> [] then real_of_int (sum_list sizes) / real (length sizes) else 0,
          if length sizes > 1 then sqrt (sample_variance sizes) else 0,
          - (\<Sum>k\<in>set (map int_of_hex (findall match_hex output)).
               (real (count_list (map int_of_hex (findall match_hex output)) k) /
                  real (length (findall match_hex output))) *
               log 2 (real (count_list (map int_of_hex (findall match_hex output)) k) /
                  real (length (findall match_hex output)))),
          real (card (set (map int_of_hex (findall match_hex output))))]"
proof -
  have ent: "calculate_entropy (map int_of_hex (findall match_hex output)) =
     Inr (- (\<Sum>k\<in>set (map int_of_hex (findall match_hex output)).
               (real (count_list (map int_of_hex (findall match_hex output)) k) /
                  real (length (findall match_hex output))) *
               log 2 (real (count_list (map int_of_hex (findall match_hex output)) k) /
                  real (length (findall match_hex output)))))"
    using calculate_entropy_eq [of "map int_of_hex (findall match_hex output)"] by simp
  obtain sizes where s: "map_exc int_of_decimal (findall match_allocating output) = Inr sizes"
    using assms
    by (cases "map_exc int_of_decimal (findall match_allocating output)")
       (auto simp: extract_features_def Let_def bind_exc_def split: sum.splits if_splits)
  from assms show ?thesis
    unfolding extract_features_def Let_def ent s
    by (auto simp: bind_exc_def split: sum.splits if_splits
          dest!: py_truediv_Inr py_stdev_Inr)
qed

lemma calculate_entropy_distinct:
  assumes "distinct ys" and "ys \<noteq> []"
  shows "calculate_entropy ys = Inr (log 2 (real (length ys)))"
proof -
  let ?n = "real (length ys)"
  from assms(2) have n: "0 < ?n" by simp
  have "(\<Sum>k\<in>set ys. (real (count_list ys k) / ?n) * log 2 (real (count_list ys k) / ?n))
      = (\<Sum>k\<in>set ys. (1 / ?n) * log 2 (1 / ?n))"
    by (rule sum.cong) (simp_all add: count_list_distinct [OF assms(1)])
  also have "\<dots> = real (card (set ys)) * ((1 / ?n) * log 2 (1 / ?n))"
    by simp
  also have "\<dots> = log 2 (1 / ?n)"
    using n by (simp add: distinct_card [OF assms(1)])
  also have "\<dots> = - log 2 ?n"
    using n by (simp add: log_divide)
  finally show ?thesis
    by (simp add: calculate_entropy_eq)
qed

subsection \<open>Results within the range of a \<^verbatim>\<open>float\<close>\<close>

lemma sqrt_2097152_bounds: "1448145 / 1000 < sqrt 2097152" "sqrt 2097152 < 1448155 / 1000"
proof -
  have "sqrt ((1448145 / 1000)\<^sup>2) < sqrt 2097152"
    by (subst real_sqrt_less_iff) (simp add: power2_eq_square)
  then show "1448145 / 1000 < sqrt 2097152" by simp
  have "sqrt 2097152 < sqrt ((1448155 / 1000)\<^sup>2)"
    by (subst real_sqrt_less_iff) (simp add: power2_eq_square)
  then show "sqrt 2097152 < 1448155 / 1000" by simp
qed

lemmas scan_defs = findall_def match_iteration_def match_segfault_def match_allocating_def
  match_hex_def is_digit_def is_hex_digit_def int_of_decimal_def decimal_value_def
  int_of_hex_def digit_value_def

lemma is_digit_value: "is_digit c \<Longrightarrow> digit_value c \<le> 9"
  by (auto simp: is_digit_def digit_value_def)

lemma foldl_digits_bound:
  "list_all is_digit x \<Longrightarrow> 0 \<le> acc \<Longrightarrow>
     foldl (\<lambda>acc c. 10 * acc + int (digit_value c)) acc x < (acc + 1) * 10 ^ length x"
proof (induction x arbitrary: acc)
  case Nil
  then show ?case by simp
next
  case (Cons c x)
  from Cons.prems have d: "int (digit_value c) \<le> 9" using is_digit_value [of c] by simp
  from Cons.prems have "foldl (\<lambda>acc c. 10 * acc + int (digit_value c))
      (10 * acc + int (digit_value c)) x < (10 * acc + int (digit_value c) + 1) * 10 ^ length x"
    by (intro Cons.IH) simp_all
  also have "\<dots> \<le> (10 * acc + 10) * 10 ^ length x"
    using d by (intro mult_right_mono) simp_all
  finally show ?case by (simp add: algebra_simps)
qed

lemma decimal_value_bound: "list_all is_digit x \<Longrightarrow> decimal_value x < 10 ^ length x"
  using foldl_digits_bound [of x 0] by (simp add: decimal_value_def)

lemma map_int_of_decimal_short:
  "list_all (\<lambda>g. length g \<le> 4300) gs \<Longrightarrow> map_exc int_of_decimal gs = Inr (map decimal_value gs)"
  by (induction gs) (simp_all add: bind_exc_def int_of_decimal_def)

lemma sum_list_bounds:
  fixes xs :: "int list"
  assumes "\<forall>x\<in>set xs. 0 \<le> x \<and> x \<le> m"
  shows "0 \<le> sum_list xs" and "sum_list xs \<le> int (length xs) * m"
proof -
  show "0 \<le> sum_list xs" using assms by (intro sum_list_nonneg) simp
  have "sum_list (map (\<lambda>x. x) xs) \<le> sum_list (map (\<lambda>x. m) xs)"
    using assms by (intro sum_list_mono) simp
  then show "sum_list xs \<le> int (length xs) * m" by (simp add: sum_list_triv)
qed

lemma mean_bounds:
  fixes xs :: "int list"
  assumes "\<forall>x\<in>set xs. 0 \<le> x \<and> x \<le> m" and "xs \<noteq> []"
  shows "0 \<le> real_of_int (sum_list xs) / real (length xs)"
    and "real_of_int (sum_list xs) / real (length xs) \<le> real_of_int m"
proof -
  from assms(2) have n: "0 < real (length xs)" by simp
  from sum_list_bounds(1) [OF assms(1)]
  show "0 \<le> real_of_int (sum_list xs) / real (length xs)" by simp
  from sum_list_bounds(2) [OF assms(1)]
  have "real_of_int (sum_list xs) \<le> real_of_int (int (length xs) * m)"
    by (rule of_int_le_iff [THEN iffD2])
  then have "real_of_int (sum_list xs) \<le> real (length xs) * real_of_int m" by simp
  with n show "real_of_int (sum_list xs) / real (length xs) \<le> real_of_int m"
    by (simp add: divide_le_eq mult.commute)
qed

lemma sample_variance_bound:
  assumes "\<forall>x\<in>set xs. 0 \<le> x \<and> x \<le> m" and "2 \<le> length xs"
  shows "sample_variance xs \<le> 2 * (real_of_int m)\<^sup>2"
proof -
  let ?n = "real (length xs)"
  let ?xbar = "real_of_int (sum_list xs) / ?n"
  from assms(2) have ne: "xs \<noteq> []" by auto
  note mb = mean_bounds [OF assms(1) ne]
  have sq: "(real_of_int x - ?xbar)\<^sup>2 \<le> (real_of_int m)\<^sup>2" if "x \<in> set xs" for x
  proof -
    from that assms(1) have "0 \<le> real_of_int x" "real_of_int x \<le> real_of_int m" by auto
    with mb have "\<bar>real_of_int x - ?xbar\<bar> \<le> real_of_int m" by linarith
    then have "\<bar>real_of_int x - ?xbar\<bar>\<^sup>2 \<le> (real_of_int m)\<^sup>2"
      by (intro power_mono) simp_all
    then show ?thesis by simp
  qed
  have "(\<Sum>x\<leftarrow>xs. (real_of_int x - ?xbar)\<^sup>2) \<le> (\<Sum>x\<leftarrow>xs. (real_of_int m)\<^sup>2)"
    by (intro sum_list_mono sq)
  then have s: "(\<Sum>x\<leftarrow>xs. (real_of_int x - ?xbar)\<^sup>2) \<le> ?n * (real_of_int m)\<^sup>2"
    by (simp add: sum_list_triv)
  from assms(2) have n1: "0 < real (length xs - 1)" by simp
  from assms(2) have "?n \<le> 2 * real (length xs - 1)" by (simp add: of_nat_diff)
  then have "?n * (real_of_int m)\<^sup>2 \<le> (2 * real (length xs - 1)) * (real_of_int m)\<^sup>2"
    by (intro mult_right_mono) simp_all
  with s have "(\<Sum>x\<leftarrow>xs. (real_of_int x - ?xbar)\<^sup>2)
      \<le> (2 * (real_of_int m)\<^sup>2) * real (length xs - 1)"
    by (simp add: mult.commute mult.left_commute)
  with n1 have "(\<Sum>x\<leftarrow>xs. (real_of_int x - ?xbar)\<^sup>2) / real (length xs - 1)
      \<le> 2 * (real_of_int m)\<^sup>2"
    by (simp add: divide_le_eq)
  then show ?thesis by (simp add: sample_variance_def Let_def)
qed

lemma sqrt_in_range:
  assumes "0 \<le> x" and "x < float_overflow\<^sup>2"
  shows "\<bar>sqrt x\<bar> < float_overflow"
proof -
  have "0 \<le> float_overflow" using float_overflow_gt_1 by simp
  with assms(2) have "sqrt x < float_overflow" by (rule real_less_lsqrt [rotated])
  with assms(1) show ?thesis by simp
qed

lemma ratio_returns:
  assumes "length output < 2 ^ 63"
  shows "\<exists>r. (if length (findall match_iteration output) > 0
               then py_truediv (int (length (findall match_segfault output)))
                      (int (length (findall match_iteration output)))
               else Inr 0) = Inr r"
proof (cases "length (findall match_iteration output) > 0")
  case False
  then show ?thesis by simp
next
  case True
  let ?s = "real (length (findall match_segfault output))"
  let ?i = "real (length (findall match_iteration output))"
  from True have "1 \<le> length (findall match_iteration output)" by linarith
  then have i: "1 \<le> ?i" by simp
  have "0 \<le> ?s" by simp
  then have "?s * 1 \<le> ?s * ?i" using i by (rule mult_left_mono [rotated])
  with i have "?s / ?i \<le> ?s" by (simp add: divide_le_eq)
  also have "?s \<le> real (length output)"
    using findall_length [of match_segfault "output"] by simp
  also have "\<dots> < 2 ^ 63"
  proof -
    have "real (length output) < real (2 ^ 63)" using assms by (simp only: of_nat_less_iff)
    then show ?thesis by simp
  qed
  also have "\<dots> < float_overflow" by (simp add: float_overflow_def)
  finally have "\<bar>?s / ?i\<bar> < float_overflow" by simp
  then have "py_float (?s / ?i) = Inr (?s / ?i)" by (rule py_float_in_range)
  with True show ?thesis by (simp add: py_truediv_def)
qed

lemma allocation_sizes_in_range:
  assumes "list_all (\<lambda>g. length g \<le> 300) (findall match_allocating output)"
  shows "map_exc int_of_decimal (findall match_allocating output) =
           Inr (map decimal_value (findall match_allocating output))"
    and "\<forall>x\<in>set (map decimal_value (findall match_allocating output)). 0 \<le> x \<and> x \<le> 10 ^ 300"
proof -
  from assms have "list_all (\<lambda>g. length g \<le> 4300) (findall match_allocating output)"
    by (auto simp: list_all_iff)
  then show "map_exc int_of_decimal (findall match_allocating output) =
           Inr (map decimal_value (findall match_allocating output))"
    by (rule map_int_of_decimal_short)
  have "0 \<le> decimal_value g \<and> decimal_value g \<le> 10 ^ 300"
    if "g \<in> set (findall match_allocating output)" for g
  proof -
    from that have "list_all is_digit g" using allocating_groups_are_digits by blast
    then have "decimal_value g < 10 ^ length g" by (rule decimal_value_bound)
    also from that assms have "(10::int) ^ length g \<le> 10 ^ 300"
      by (intro power_increasing) (auto simp: list_all_iff)
    finally show ?thesis using decimal_value_nonneg [of g] by simp
  qed
  then show "\<forall>x\<in>set (map decimal_value (findall match_allocating output)). 0 \<le> x \<and> x \<le> 10 ^ 300"
    by auto
qed

lemma mean_returns:
  fixes xs :: "int list"
  assumes "\<forall>x\<in>set xs. 0 \<le> x \<and> x \<le> 10 ^ 300" and "xs \<noteq> []"
  shows "py_truediv (sum_list xs) (int (length xs)) =
           Inr (real_of_int (sum_list xs) / real (length xs))"
proof -
  note mb = mean_bounds [OF assms]
  have "real_of_int (10 ^ 300) < float_overflow" by (simp add: float_overflow_def)
  with mb have "\<bar>real_of_int (sum_list xs) / real (length xs)\<bar> < float_overflow" by linarith
  then have "py_float (real_of_int (sum_list xs) / real (length xs)) =
      Inr (real_of_int (sum_list xs) / real (length xs))"
    by (rule py_float_in_range)
  with assms(2) show ?thesis by (simp add: py_truediv_def)
qed

lemma stdev_returns:
  assumes "\<forall>x\<in>set xs. 0 \<le> x \<and> x \<le> 10 ^ 300" and "2 \<le> length xs"
  shows "py_stdev xs = Inr (sqrt (sample_variance xs))"
proof -
  have "sample_variance xs \<le> 2 * (real_of_int (10 ^ 300))\<^sup>2"
    using assms by (rule sample_variance_bound)
  also have "\<dots> < float_overflow\<^sup>2" by (simp add: float_overflow_def)
  finally have "\<bar>sqrt (sample_variance xs)\<bar> < float_overflow"
    using sample_variance_nonneg [of xs] by (intro sqrt_in_range)
  then have "py_float (sqrt (sample_variance xs)) = Inr (sqrt (sample_variance xs))"
    by (rule py_float_in_range)
  with assms(2) show ?thesis by (simp add: py_stdev_def)
qed

lemma extract_features_returns:
  assumes "length output < 2 ^ 63"
    and "list_all (\<lambda>g. length g \<le> 300) (findall match_allocating output)"
  shows "\<exists>v. extract_features output = Inr v"
proof -
  let ?sizes = "map decimal_value (findall match_allocating output)"
  obtain r where r: "(if length (findall match_iteration output) > 0
               then py_truediv (int (length (findall match_segfault output)))
                      (int (length (findall match_iteration output)))
               else Inr 0) = Inr r"
    using ratio_returns [OF assms(1)] by blast
  note s = allocation_sizes_in_range [OF assms(2)]
  have m: "py_truediv (sum_list ?sizes) (int (length ?sizes)) =
           Inr (real_of_int (sum_list ?sizes) / real (length ?sizes))" if "?sizes \<noteq> []"
    using s(2) that by (rule mean_returns)
  have d: "py_stdev ?sizes = Inr (sqrt (sample_variance ?sizes))" if "2 \<le> length ?sizes"
    using s(2) that by (rule stdev_returns)
  show ?thesis
  proof (cases "?sizes = []")
    case True
    then show ?thesis
      unfolding extract_features_def Let_def r s(1)
      by (simp add: bind_exc_def calculate_entropy_eq)
  next
    case False
    show ?thesis
    proof (cases "2 \<le> length ?sizes")
      case True
      with False m d show ?thesis
        unfolding extract_features_def Let_def r s(1)
        by (simp add: bind_exc_def calculate_entropy_eq)
    next
      case False
      with \<open>?sizes \<noteq> []\<close> m show ?thesis
        unfolding extract_features_def Let_def r s(1)
        by (simp add: bind_exc_def calculate_entropy_eq)
    qed
  qed
qed

subsection \<open>The sections of the report\<close>

lemmas report_defs = analyze_scan_output_def segfault_analysis_def allocation_analysis_def
  hex_address_analysis_def hex_statistics_def hex_statistics_try_def
  repetitive_address_detection_def advanced_warning_checks_def address_interpretations_def
  null_page_mapping_check_def interpret_address_def calculate_entropy_def
  bind_exc_def py_truediv_def py_float_def float_overflow_def py_log2_def py_mean_def
  py_median_def py_stdev_def sample_variance_def py_min_def py_max_def format_x_def




lemma hex_statistics_lines:
  "\<exists>p. hex_statistics xs = Inr p \<and> list_all (\<lambda>x. \<not> address_section_line x) p"
proof -
  have e: "is_Exception e"
    if "snd (hex_statistics_try xs) = Some e" for e
    using that
    by (auto simp: hex_statistics_try_def py_mean_def py_stdev_def py_median_def py_truediv_def
          py_float_def format_x_def bind_exc_def Let_def
          split: sum.splits if_splits py_number.splits)
  have l: "list_all (\<lambda>x. \<not> address_section_line x) (fst (hex_statistics_try xs))"
    by (auto simp: hex_statistics_try_def split: sum.splits)
  show ?thesis
    using e l
    by (cases "hex_statistics_try xs")
       (auto simp: hex_statistics_def split: option.splits)
qed

lemma hex_address_analysis_lines:
  "\<exists>p. hex_address_analysis hs = Inr p \<and> list_all (\<lambda>x. \<not> address_section_line x) p"
proof -
  obtain st where st: "hex_statistics (map int_of_hex hs) = Inr st"
    "list_all (\<lambda>x. \<not> address_section_line x) st"
    using hex_statistics_lines by blast
  show ?thesis
    by (simp add: hex_address_analysis_def Let_def bind_exc_def st calculate_entropy_eq)
qed










lemma perform_ml_analysis_raises:
  "perform_ml_analysis forest fv agg = Inl e \<Longrightarrow> e = KeyboardInterrupt"
  by (cases e) (auto simp: perform_ml_analysis_def split: option.splits if_splits sum.splits)

lemma extract_features_length: "extract_features stdout = Inr fv \<Longrightarrow> length fv = 5"
  using extract_features_Inr [of stdout fv] by auto

lemma no_improvement_appended:
  assumes "agg \<noteq> []" and "length fv = 5" and "length (last agg) = 5"
    and "\<forall>i<5. \<bar>fv ! i - last agg ! i\<bar> < 1 / 10 ^ 6"
  shows "no_improvement (agg @ [fv])"
proof -
  from assms(1) have l: "2 \<le> length (agg @ [fv])"
    by (cases agg) simp_all
  from assms(1) have p: "(agg @ [fv]) ! (length (agg @ [fv]) - 2) = last agg"
    by (simp add: nth_append last_conv_nth)
  have "\<bar>x - y\<bar> < 1 / 10 ^ 6" if "(x, y) \<in> set (zip fv (last agg))" for x y
  proof -
    from that obtain i where "i < 5" "x = fv ! i" "y = last agg ! i"
      using assms(2,3) by (auto simp: set_zip)
    with assms(4) show ?thesis by simp
  qed
  then have "list_all (\<lambda>d. d < 1 / 10 ^ 6) (map (\<lambda>(x, y). \<bar>x - y\<bar>) (zip fv (last agg)))"
    by (auto simp: list_all_iff)
  with l show ?thesis
    unfolding no_improvement_def Let_def p by simp
qed

subsection \<open>Reports of texts with allocation sizes in range\<close>

lemma median_returns:
  fixes xs :: "int list"
  assumes "\<forall>x\<in>set xs. 0 \<le> x \<and> x \<le> 10 ^ 300" and "xs \<noteq> []"
  shows "\<exists>m. py_median xs = Inr m"
proof (cases "length (sort xs) mod 2 = 1")
  case True
  with assms(2) show ?thesis by (simp add: py_median_def Let_def)
next
  case False
  let ?d = "sort xs"
  let ?a = "?d ! (length ?d div 2 - 1)"
  let ?b = "?d ! (length ?d div 2)"
  from assms(2) have "0 < length ?d" by simp
  then have "?a \<in> set ?d" "?b \<in> set ?d"
    by (simp_all only: nth_mem div_less_dividend less_imp_diff_less one_less_numeral_iff
          semiring_norm)
  with assms(1) have a: "0 \<le> ?a \<and> ?a \<le> 10 ^ 300" and b: "0 \<le> ?b \<and> ?b \<le> 10 ^ 300"
    by simp_all
  from a b have "0 \<le> real_of_int (?a + ?b) / 2 \<and>
      real_of_int (?a + ?b) / 2 \<le> real_of_int (10 ^ 300)"
    by simp
  moreover have "real_of_int (10 ^ 300) < float_overflow" by (simp add: float_overflow_def)
  ultimately have "\<bar>real_of_int (?a + ?b) / 2\<bar> < float_overflow" by linarith
  then have "py_float (real_of_int (?a + ?b) / 2) = Inr (real_of_int (?a + ?b) / 2)"
    by (rule py_float_in_range)
  then have "py_truediv (?a + ?b) 2 = Inr (real_of_int (?a + ?b) / 2)"
    by (simp add: py_truediv_def)
  with False assms(2) show ?thesis by (simp add: py_median_def Let_def bind_exc_def)
qed

lemma allocation_analysis_returns:
  fixes xs :: "int list"
  assumes "\<forall>x\<in>set xs. 0 \<le> x \<and> x \<le> 10 ^ 300"
  shows "\<exists>p. allocation_analysis xs = Inr p"
proof (cases "xs = []")
  case True
  then show ?thesis by (simp add: allocation_analysis_def)
next
  case False
  note m = mean_returns [OF assms False]
  from False obtain mn mx where mm: "py_min xs = Inr mn" "py_max xs = Inr mx"
    by (cases xs) (simp_all add: py_min_def py_max_def)
  show ?thesis
  proof (cases "2 \<le> length xs")
    case True
    note d = stdev_returns [OF assms True]
    obtain md where md: "py_median xs = Inr md"
      using median_returns [OF assms False] by blast
    from False True show ?thesis
      by (simp add: allocation_analysis_def bind_exc_def m mm d md)
  next
    case False
    with \<open>xs \<noteq> []\<close> show ?thesis
      by (simp add: allocation_analysis_def bind_exc_def m mm)
  qed
qed

lemma analyze_scan_output_returns:
  assumes "length output < 2 ^ 63"
    and "list_all (\<lambda>g. length g \<le> 300) (findall match_allocating output)"
  shows "\<exists>report. analyze_scan_output output = Inr report"
proof -
  let ?it = "length (findall match_iteration output)"
  let ?sg = "length (findall match_segfault output)"
  let ?sizes = "map decimal_value (findall match_allocating output)"
  have r: "\<exists>r. py_truediv (int ?sg) (int ?it) = Inr r" if "0 < ?it"
    using ratio_returns [OF assms(1)] that by simp
  obtain p2 where p2: "segfault_analysis ?it ?sg = Inr p2"
    using r by (cases "0 < ?it") (auto simp: segfault_analysis_def bind_exc_def)
  obtain p6 where p6: "advanced_warning_checks ?it ?sg = Inr p6"
    using r by (cases "0 < ?it") (auto simp: advanced_warning_checks_def bind_exc_def)
  note s = allocation_sizes_in_range [OF assms(2)]
  obtain p3 where p3: "allocation_analysis ?sizes = Inr p3"
    using allocation_analysis_returns [OF s(2)] by blast
  obtain p4 where p4: "hex_address_analysis (findall match_hex output) = Inr p4"
    using hex_address_analysis_lines by blast
  show ?thesis
    by (simp add: analyze_scan_output_def Let_def bind_exc_def p2 s(1) p3 p4 p6)
qed

subsection \<open>A text whose mean allocation size is out of range\<close>

lemma decimal_value_nines: "decimal_value (replicate n (CHR ''9'')) = 10 ^ n - 1"
proof -
  have "foldl (\<lambda>acc c. 10 * acc + int (digit_value c)) a (replicate n (CHR ''9''))
      = 10 ^ n * a + (10 ^ n - 1)" for a
    by (induction n arbitrary: a) (simp_all add: digit_value_def algebra_simps)
  from this [of 0] show ?thesis by (simp add: decimal_value_def)
qed

lemma overflow_text_scans:
  "findall match_iteration (''Allocating '' @ replicate 309 (CHR ''9'') @ '' bytes'') = []"
  "findall match_segfault (''Allocating '' @ replicate 309 (CHR ''9'') @ '' bytes'') = []"
  "findall match_allocating (''Allocating '' @ replicate 309 (CHR ''9'') @ '' bytes'') =
     [replicate 309 (CHR ''9'')]"
  "findall match_hex (''Allocating '' @ replicate 309 (CHR ''9'') @ '' bytes'') = []"
  by (simp_all add: scan_defs numeral_eq_Suc)

lemma overflow_text_raises:
  "extract_features (''Allocating '' @ replicate 309 (CHR ''9'') @ '' bytes'') =
     Inl OverflowError"
  unfolding extract_features_def overflow_text_scans
  by (simp add: int_of_decimal_def decimal_value_nines bind_exc_def py_truediv_def py_float_def
        float_overflow_def)

section \<open>Theorems\<close>

text \<open>
  C4. With the isolation forest available, a feature history of length 1 to 9 yields
  the not-enough-data verdict, followed by the line that reports the length of the
  history. The result is the same for every forest and for every content of the
  vectors, so nothing is fitted or classified.
\<close>

theorem perform_ml_analysis_insufficient:
  assumes "1 \<le> length history" and "length history \<le> 9"
  shows "perform_ml_analysis (Some clf) feature_vector history =
           Inr (MLLines [MLNotEnoughData, MLDebugSamplesSoFar (length history)])"
  using assms by (simp add: perform_ml_analysis_def)

theorem perform_ml_analysis_insufficient_witness:
  "1 \<le> length [[2, 0, 0, 0, 0 :: real]] \<and> length [[2, 0, 0, 0, 0 :: real]] \<le> 9 \<and>
   perform_ml_analysis (Some (\<lambda>h v. Inl OtherException)) [2, 0, 0, 0, 0] [[2, 0, 0, 0, 0]] =
     Inr (MLLines [MLNotEnoughData, MLDebugSamplesSoFar 1])"
  using perform_ml_analysis_insufficient
    [of "[[2, 0, 0, 0, 0]]" "\<lambda>h v. Inl OtherException" "[2, 0, 0, 0, 0]"]
  by simp

text \<open>
  C1, as the code has it. The claim bounds the first element by 1 for every text, but
  the ratio is the number of fault messages over the number of iteration markers, and
  nothing keeps the first below the second: a text with one marker and two messages
  has the ratio 2. Nor does every text yield a vector: the mean of one allocation size
  of 309 digits is beyond the range of a \<^verbatim>\<open>float\<close>, and the true division raises
  \<^verbatim>\<open>OverflowError\<close>.
\<close>

theorem extract_features_ratio_counterexample:
  "extract_features ''Iteration 0:Caught segmentation faultCaught segmentation fault'' =
     Inr [2, 0, 0, 0, 0] \<and>
   \<not> ([2, 0, 0, 0, 0 :: real] ! 0 \<le> 1) \<and>
   extract_features (''Allocating '' @ replicate 309 (CHR ''9'') @ '' bytes'') =
     Inl OverflowError"
proof -
  have "extract_features ''Iteration 0:Caught segmentation faultCaught segmentation fault'' =
     Inr [2, 0, 0, 0, 0]"
    by (simp add: extract_features_def scan_defs bind_exc_def py_truediv_def py_float_def
          float_overflow_def)
  then show ?thesis using overflow_text_raises by simp
qed

text \<open>
  C1, amended. \<open>extract_features\<close> returns a vector for every text in which no
  allocation size has more than 300 digits (a Python string is shorter than [2^63]
  characters); on longer sizes the conversion or the statistics may raise. Whenever it
  returns, the vector has 5 elements, the first element is not negative, and it is at
  most 1 whenever the fault messages do not outnumber the iteration markers. Each
  element is 0 when its source sequence (iteration markers, allocation sizes, address
  tokens) is empty.
\<close>

theorem extract_features_total:
  "(length output < 2 ^ 63 \<and>
    list_all (\<lambda>g. length g \<le> 300) (findall match_allocating output)
      \<longrightarrow> (\<exists>v. extract_features output = Inr v)) \<and>
   (extract_features output = Inr v \<longrightarrow>
      length v = 5 \<and>
      0 \<le> v ! 0 \<and>
      (length (findall match_segfault output) \<le> length (findall match_iteration output)
         \<longrightarrow> v ! 0 \<le> 1) \<and>
      (findall match_iteration output = [] \<longrightarrow> v ! 0 = 0) \<and>
      (findall match_allocating output = [] \<longrightarrow> v ! 1 = 0 \<and> v ! 2 = 0) \<and>
      (findall match_hex output = [] \<longrightarrow> v ! 3 = 0 \<and> v ! 4 = 0))"
proof (intro conjI impI)
  assume "length output < 2 ^ 63 \<and>
    list_all (\<lambda>g. length g \<le> 300) (findall match_allocating output)"
  then show "\<exists>v. extract_features output = Inr v"
    using extract_features_returns by blast
next
  assume r: "extract_features output = Inr v"
  from extract_features_Inr [OF r] obtain sizes where
    s: "map_exc int_of_decimal (findall match_allocating output) = Inr sizes"
    and v: "v =
      [if length (findall match_iteration output) > 0
       then real (length (findall match_segfault output)) /
            real (length (findall match_iteration output)) else 0,
       if sizes \<noteq> [] then real_of_int (sum_list sizes) / real (length sizes) else 0,
       if length sizes > 1 then sqrt (sample_variance sizes) else 0,
       - (\<Sum>k\<in>set (map int_of_hex (findall match_hex output)).
            (real (count_list (map int_of_hex (findall match_hex output)) k) /
             real (length (findall match_hex output))) *
            log 2 (real (count_list (map int_of_hex (findall match_hex output)) k) /
                   real (length (findall match_hex output)))),
       real (card (set (map int_of_hex (findall match_hex output))))]"
    by blast
  show "length v = 5" by (simp add: v)
  show "0 \<le> v ! 0" by (simp add: v)
  show "v ! 0 \<le> 1"
    if "length (findall match_segfault output) \<le> length (findall match_iteration output)"
    using that by (simp add: v divide_le_eq_1)
  show "v ! 0 = 0" if "findall match_iteration output = []"
    using that by (simp add: v)
  have e: "sizes = []" if "findall match_allocating output = []"
    using map_exc_empty [OF s] that by simp
  show "v ! 1 = 0" if "findall match_allocating output = []"
    using e [OF that] by (simp add: v)
  show "v ! 2 = 0" if "findall match_allocating output = []"
    using e [OF that] by (simp add: v)
  show "v ! 3 = 0" if "findall match_hex output = []"
    using that by (simp add: v)
  show "v ! 4 = 0" if "findall match_hex output = []"
    using that by (simp add: v)
qed

theorem extract_features_total_witness:
  "length ''Iteration 0: Allocating 1024 bytes. Caught segmentation fault'' < 2 ^ 63 \<and>
   list_all (\<lambda>g. length g \<le> 300)
     (findall match_allocating
        ''Iteration 0: Allocating 1024 bytes. Caught segmentation fault'') \<and>
   length (findall match_segfault
        ''Iteration 0: Allocating 1024 bytes. Caught segmentation fault'')
     \<le> length (findall match_iteration
        ''Iteration 0: Allocating 1024 bytes. Caught segmentation fault'') \<and>
   findall match_hex ''Iteration 0: Allocating 1024 bytes. Caught segmentation fault'' = [] \<and>
   extract_features ''Iteration 0: Allocating 1024 bytes. Caught segmentation fault'' =
     Inr [1, 1024, 0, 0, 0]"
proof -
  have a: "findall match_segfault
      ''Iteration 0: Allocating 1024 bytes. Caught segmentation fault'' =
      [''Caught segmentation fault'']"
    and b: "findall match_iteration
      ''Iteration 0: Allocating 1024 bytes. Caught segmentation fault'' = [''0'']"
    and c: "findall match_allocating
      ''Iteration 0: Allocating 1024 bytes. Caught segmentation fault'' = [''1024'']"
    and d: "findall match_hex
      ''Iteration 0: Allocating 1024 bytes. Caught segmentation fault'' = []"
    by (simp_all add: scan_defs)
  have l: "length ''Iteration 0: Allocating 1024 bytes. Caught segmentation fault''
      < (2 :: nat) ^ 63"
    by simp
  from extract_features_total
    [of "''Iteration 0: Allocating 1024 bytes. Caught segmentation fault''"] l
  obtain v where
    e: "extract_features ''Iteration 0: Allocating 1024 bytes. Caught segmentation fault'' =
      Inr v"
    unfolding c by auto
  have "extract_features ''Iteration 0: Allocating 1024 bytes. Caught segmentation fault'' =
      Inr [1, 1024, 0, 0, 0]"
    unfolding extract_features_def a b c d
    by (simp add: int_of_decimal_def decimal_value_def digit_value_def bind_exc_def
          py_truediv_def py_float_def float_overflow_def)
  with e l show ?thesis unfolding a b c d by simp
qed

text \<open>
  C9. Whenever \<open>extract_features\<close> returns, its vector has 5 elements and each of them
  is at least 0: the fault ratio, the mean and the standard deviation of the
  allocation sizes, the entropy of the addresses and the number of distinct addresses.
\<close>

theorem extract_features_nonneg:
  assumes "extract_features output = Inr v"
  shows "length v = 5 \<and> 0 \<le> v ! 0 \<and> 0 \<le> v ! 1 \<and> 0 \<le> v ! 2 \<and> 0 \<le> v ! 3 \<and> 0 \<le> v ! 4"
proof -
  from extract_features_Inr [OF assms] obtain sizes where
    s: "map_exc int_of_decimal (findall match_allocating output) = Inr sizes"
    and v: "v =
      [if length (findall match_iteration output) > 0
       then real (length (findall match_segfault output)) /
            real (length (findall match_iteration output)) else 0,
       if sizes \<noteq> [] then real_of_int (sum_list sizes) / real (length sizes) else 0,
       if length sizes > 1 then sqrt (sample_variance sizes) else 0,
       - (\<Sum>k\<in>set (map int_of_hex (findall match_hex output)).
            (real (count_list (map int_of_hex (findall match_hex output)) k) /
             real (length (findall match_hex output))) *
            log 2 (real (count_list (map int_of_hex (findall match_hex output)) k) /
                   real (length (findall match_hex output)))),
       real (card (set (map int_of_hex (findall match_hex output))))]"
    by blast
  have "0 \<le> sum_list sizes"
    using map_int_of_decimal_nonneg [OF s] by (intro sum_list_nonneg) (simp add: list_all_iff)
  then have m: "0 \<le> real_of_int (sum_list sizes) / real (length sizes)" by simp
  note sample_variance_nonneg [of sizes]
    entropy_sum_nonpos [of "map int_of_hex (findall match_hex output)"]
  with m show ?thesis by (simp add: v)
qed

theorem extract_features_nonneg_witness:
  "extract_features ''Iteration 0: Allocating 1024 bytes 0x7ffd1 Caught segmentation fault'' =
     Inr [1, 1024, 0, 0, 1] \<and>
   length [1, 1024, 0, 0, 1 :: real] = 5 \<and>
   0 \<le> [1, 1024, 0, 0, 1 :: real] ! 0 \<and> 0 \<le> [1, 1024, 0, 0, 1 :: real] ! 1 \<and>
   0 \<le> [1, 1024, 0, 0, 1 :: real] ! 2 \<and> 0 \<le> [1, 1024, 0, 0, 1 :: real] ! 3 \<and>
   0 \<le> [1, 1024, 0, 0, 1 :: real] ! 4"
proof -
  have e: "extract_features
      ''Iteration 0: Allocating 1024 bytes 0x7ffd1 Caught segmentation fault'' =
     Inr [1, 1024, 0, 0, 1]"
    by (simp add: extract_features_def scan_defs int_of_decimal_def int_of_hex_def
          digit_value_def bind_exc_def py_truediv_def py_float_def float_overflow_def
          calculate_entropy_def py_log2_def)
  from extract_features_nonneg [OF e] e show ?thesis by simp
qed

text \<open>
  C6. \<open>calculate_entropy\<close> never raises. It returns 0 for the empty sequence and for
  every sequence of one element. For every sequence of n items it returns minus the sum,
  over the distinct items k, of [f(k)/n * log2 (f(k)/n)], where f(k) counts the
  occurrences of k. For n pairwise distinct items it returns [log2 n].
\<close>

theorem calculate_entropy_contract:
  fixes x :: 'a and xs ys :: "'a list"
  shows
  "calculate_entropy ([] :: 'a list) = Inr 0 \<and>
   calculate_entropy [x] = Inr 0 \<and>
   calculate_entropy xs =
     Inr (- (\<Sum>k\<in>set xs. (real (count_list xs k) / real (length xs)) *
              log 2 (real (count_list xs k) / real (length xs)))) \<and>
   (distinct ys \<and> ys \<noteq> [] \<longrightarrow> calculate_entropy ys = Inr (log 2 (real (length ys))))"
proof (intro conjI impI)
  show "calculate_entropy ([] :: 'a list) = Inr 0"
    by (simp add: calculate_entropy_def)
  show "calculate_entropy [x] = Inr 0"
    using calculate_entropy_distinct [of "[x]"] by simp
  show "calculate_entropy xs =
     Inr (- (\<Sum>k\<in>set xs. (real (count_list xs k) / real (length xs)) *
              log 2 (real (count_list xs k) / real (length xs))))"
    by (rule calculate_entropy_eq)
  show "calculate_entropy ys = Inr (log 2 (real (length ys)))" if "distinct ys \<and> ys \<noteq> []"
    using that by (simp add: calculate_entropy_distinct)
qed

theorem calculate_entropy_contract_witness:
  "distinct [10, 20, 30, 40 :: int] \<and> [10, 20, 30, 40 :: int] \<noteq> [] \<and>
   calculate_entropy [10, 20, 30, 40 :: int] = Inr (log 2 4)"
  using calculate_entropy_contract [of 0 "[]" "[10, 20, 30, 40 :: int]"]
  by simp

text \<open>
  C7. The text of two allocation lines yields the sizes 1024 and 3072 in the order of
  appearance, the mean 2048 and the sample standard deviation (divisor [n - 1]), the
  square root of 2097152, which is 1448.15 to two decimals. The allocation part of
  the report of \<open>analyze_scan_output\<close> carries the same mean and deviation.
\<close>

theorem scenario_B_allocations:
  "findall match_allocating ''Allocating 1024 bytes\<newline>Allocating 3072 bytes\<newline>'' =
     [''1024'', ''3072''] \<and>
   map_exc int_of_decimal
     (findall match_allocating ''Allocating 1024 bytes\<newline>Allocating 3072 bytes\<newline>'') =
     Inr [1024, 3072] \<and>
   extract_features ''Allocating 1024 bytes\<newline>Allocating 3072 bytes\<newline>'' =
     Inr [0, 2048, sqrt 2097152, 0, 0] \<and>
   py_stdev [1024, 3072] =
     Inr (sqrt (((1024 - 2048)\<^sup>2 + (3072 - 2048)\<^sup>2) / (2 - 1))) \<and>
   sqrt (((1024 - 2048)\<^sup>2 + (3072 - 2048)\<^sup>2) / (2 - 1)) = sqrt 2097152 \<and>
   \<bar>sqrt 2097152 - 1448.15\<bar> < 0.005 \<and>
   allocation_analysis [1024, 3072] =
     Inr [AverageAllocated 2048, AllocationRange 1024 3072,
          StdevAllocated (sqrt 2097152), MedianAllocated (PyFloat 2048)]"
proof -
  have t: "findall match_allocating ''Allocating 1024 bytes\<newline>Allocating 3072 bytes\<newline>'' =
     [''1024'', ''3072'']"
    by (simp add: scan_defs)
  have n: "findall match_iteration ''Allocating 1024 bytes\<newline>Allocating 3072 bytes\<newline>'' = []"
    "findall match_hex ''Allocating 1024 bytes\<newline>Allocating 3072 bytes\<newline>'' = []"
    by (simp_all add: scan_defs)
  have i: "map_exc int_of_decimal [''1024'', ''3072''] = Inr [1024, 3072]"
    by (simp add: int_of_decimal_def decimal_value_def digit_value_def bind_exc_def)
  have "sqrt 2097152 < float_overflow"
    using sqrt_2097152_bounds(2) by (simp add: float_overflow_def)
  then have f: "py_float (sqrt 2097152) = Inr (sqrt 2097152)"
    by (intro py_float_in_range) simp
  have s: "py_stdev [1024, 3072] = Inr (sqrt 2097152)"
    by (simp add: py_stdev_def sample_variance_def f)
  have m: "py_truediv 4096 2 = Inr 2048"
    by (simp add: py_truediv_def py_float_def float_overflow_def)
  have e: "extract_features ''Allocating 1024 bytes\<newline>Allocating 3072 bytes\<newline>'' =
     Inr [0, 2048, sqrt 2097152, 0, 0]"
    unfolding extract_features_def Let_def t n i
    by (simp add: bind_exc_def m s)
  have v: "((1024 - 2048)\<^sup>2 + (3072 - 2048)\<^sup>2) / (2 - 1) = (2097152 :: real)"
    by simp
  have b: "\<bar>sqrt 2097152 - 1448.15\<bar> < 0.005"
  proof -
    have u: "sqrt 2097152 - 1448.15 < 0.005"
      using sqrt_2097152_bounds(2) by simp
    have l: "- (sqrt 2097152 - 1448.15) < 0.005"
      using sqrt_2097152_bounds(1) by simp
    show ?thesis by (rule abs_less_iff [THEN iffD2, OF conjI [OF u l]])
  qed
  have a: "allocation_analysis [1024, 3072] =
     Inr [AverageAllocated 2048, AllocationRange 1024 3072,
          StdevAllocated (sqrt 2097152), MedianAllocated (PyFloat 2048)]"
    unfolding allocation_analysis_def
    by (simp add: bind_exc_def m s py_min_def py_max_def py_median_def py_truediv_def
          py_float_def float_overflow_def)
  show ?thesis
    unfolding t i v by (intro conjI refl s e b a)
qed

text \<open>
  C2, as the code has it. The claim has the cycle go on with whatever output was
  captured when the forced termination fails too. The handler of the forced path
  assigns the empty string instead: with the output \<^verbatim>\<open>Iteration 0:\<close> captured when both
  calls of \<^verbatim>\<open>communicate\<close> time out, the cycle goes on with the empty text.
\<close>

theorem forced_termination_counterexample:
  "communicate_final
     \<lparr>popen = Inr (), sleep_scan = Inr (), kill_sigterm = Inr (),
      communicate_first = Inl (TimeoutExpired ''Iteration 0:''),
      kill_sigkill = Inr (),
      communicate_final = Inl (TimeoutExpired ''Iteration 0:''),
      sleep_pause = Inr ()\<rparr> = Inl (TimeoutExpired ''Iteration 0:'') \<and>
   terminate_and_collect
     \<lparr>popen = Inr (), sleep_scan = Inr (), kill_sigterm = Inr (),
      communicate_first = Inl (TimeoutExpired ''Iteration 0:''),
      kill_sigkill = Inr (),
      communicate_final = Inl (TimeoutExpired ''Iteration 0:''),
      sleep_pause = Inr ()\<rparr> = Inr [] \<and>
   ''Iteration 0:'' \<noteq> []"
  by (simp add: terminate_and_collect_def bind_exc_def)

text \<open>
  C2, amended. When the first \<^verbatim>\<open>communicate\<close> times out and the forced path (the
  \<^verbatim>\<open>SIGKILL\<close> or the final bounded \<^verbatim>\<open>communicate\<close>) raises any \<^verbatim>\<open>Exception\<close>, the cycle
  goes on with the empty string as its output; a \<^verbatim>\<open>ProcessLookupError\<close> of the graceful
  signal is absorbed. The termination step lets an exception through in three cases
  only: the graceful signal raises something other than \<^verbatim>\<open>ProcessLookupError\<close>, the
  first \<^verbatim>\<open>communicate\<close> raises something other than \<^verbatim>\<open>TimeoutExpired\<close>, or a
  \<^verbatim>\<open>KeyboardInterrupt\<close> arrives on the forced path.
\<close>

theorem terminate_and_collect_absorbs:
  "((kill_sigterm env = Inr () \<or> kill_sigterm env = Inl ProcessLookupError) \<and>
    communicate_first env = Inl (TimeoutExpired captured) \<and>
    (kill_sigkill env = Inl e \<or> kill_sigkill env = Inr () \<and> communicate_final env = Inl e) \<and>
    is_Exception e
    \<longrightarrow> terminate_and_collect env = Inr []) \<and>
   (terminate_and_collect env = Inl e' \<longleftrightarrow>
      kill_sigterm env = Inl e' \<and> e' \<noteq> ProcessLookupError \<or>
      (kill_sigterm env = Inr () \<or> kill_sigterm env = Inl ProcessLookupError) \<and>
      (communicate_first env = Inl e' \<and> (\<forall>c. e' \<noteq> TimeoutExpired c) \<or>
       (\<exists>c. communicate_first env = Inl (TimeoutExpired c)) \<and> e' = KeyboardInterrupt \<and>
       (kill_sigkill env = Inl e' \<or>
        kill_sigkill env = Inr () \<and> communicate_final env = Inl e')))"
proof (intro conjI impI)
  assume "(kill_sigterm env = Inr () \<or> kill_sigterm env = Inl ProcessLookupError) \<and>
    communicate_first env = Inl (TimeoutExpired captured) \<and>
    (kill_sigkill env = Inl e \<or> kill_sigkill env = Inr () \<and> communicate_final env = Inl e) \<and>
    is_Exception e"
  then show "terminate_and_collect env = Inr []"
    by (auto simp: terminate_and_collect_def bind_exc_def)
next
  show "terminate_and_collect env = Inl e' \<longleftrightarrow>
      kill_sigterm env = Inl e' \<and> e' \<noteq> ProcessLookupError \<or>
      (kill_sigterm env = Inr () \<or> kill_sigterm env = Inl ProcessLookupError) \<and>
      (communicate_first env = Inl e' \<and> (\<forall>c. e' \<noteq> TimeoutExpired c) \<or>
       (\<exists>c. communicate_first env = Inl (TimeoutExpired c)) \<and> e' = KeyboardInterrupt \<and>
       (kill_sigkill env = Inl e' \<or>
        kill_sigkill env = Inr () \<and> communicate_final env = Inl e'))"
  proof (cases "kill_sigterm env")
    case (Inl a)
    then show ?thesis
    proof (cases "a = ProcessLookupError")
      case False
      with Inl show ?thesis by (auto simp: terminate_and_collect_def bind_exc_def)
    next
      case True
      with Inl show ?thesis
        by (cases "communicate_first env"; cases "kill_sigkill env"; cases "communicate_final env";
            cases e')
           (auto simp: terminate_and_collect_def bind_exc_def split: py_exc.splits)
    qed
  next
    case (Inr u)
    then show ?thesis
      by (cases "communicate_first env"; cases "kill_sigkill env"; cases "communicate_final env";
          cases e')
         (auto simp: terminate_and_collect_def bind_exc_def split: py_exc.splits)
  qed
qed

theorem terminate_and_collect_absorbs_witness:
  "kill_sigterm
     \<lparr>popen = Inr (), sleep_scan = Inr (), kill_sigterm = Inl ProcessLookupError,
      communicate_first = Inl (TimeoutExpired ''Allocating 1024 bytes''),
      kill_sigkill = Inl ProcessLookupError,
      communicate_final = Inr ''unread'', sleep_pause = Inr ()\<rparr> = Inl ProcessLookupError \<and>
   is_Exception ProcessLookupError \<and>
   terminate_and_collect
     \<lparr>popen = Inr (), sleep_scan = Inr (), kill_sigterm = Inl ProcessLookupError,
      communicate_first = Inl (TimeoutExpired ''Allocating 1024 bytes''),
      kill_sigkill = Inl ProcessLookupError,
      communicate_final = Inr ''unread'', sleep_pause = Inr ()\<rparr> = Inr []"
  using terminate_and_collect_absorbs
    [of "\<lparr>popen = Inr (), sleep_scan = Inr (), kill_sigterm = Inl ProcessLookupError,
      communicate_first = Inl (TimeoutExpired ''Allocating 1024 bytes''),
      kill_sigkill = Inl ProcessLookupError,
      communicate_final = Inr ''unread'', sleep_pause = Inr ()\<rparr>"
     "''Allocating 1024 bytes''" ProcessLookupError KeyboardInterrupt]
  by simp

text \<open>
  C3, at the text \<^verbatim>\<open>0x1 0x2\<close>. Two address tokens are extracted, with the values 1
  and 2. Their mean 1.5 is a \<^verbatim>\<open>float\<close>, the format code \<^verbatim>\<open>x\<close> of the first statement
  raises \<^verbatim>\<open>ValueError\<close> on it, and the handler appends the fallback statement: the
  report has none of the mean, median and standard deviation statements. The median
  of an even number of addresses is a \<^verbatim>\<open>float\<close> as well, so the same happens after the
  mean statement whenever the number of tokens is even.
\<close>

theorem hex_statistics_two_addresses:
  "findall match_hex ''0x1 0x2'' = [''0x1'', ''0x2''] \<and>
   py_mean [1, 2] = Inr (PyFloat (3 / 2)) \<and>
   format_x (PyFloat (3 / 2)) = Inl ValueError \<and>
   hex_statistics [1, 2] = Inr [InsufficientHexData] \<and>
   analyze_scan_output ''0x1 0x2'' =
     Inr [TotalIterations 0, NumberOfSegfaults 0, NoIterationsDetected, NoAllocationData,
          TotalHexAddresses 2, UniqueHexAddresses 2, InsufficientHexData,
          EntropyOfHexAddresses 1, NoRepetitivePatterns, SegfaultFrequencyExpected,
          InterpretationsHeader,
          AddressInterpretation ''0x1'' ''Unknown memory region'',
          AddressInterpretation ''0x2'' ''Unknown memory region'',
          NullPageMappingNotDetected]"
  by (simp add: report_defs scan_defs log_divide)

text \<open>
  C5. A cycle that produces its report and then appends a feature vector within the
  tolerance [1e-6] of the previous one in each of their 5 elements is the last cycle:
  the loop ends with that cycle and the environments of all later cycles are left
  untouched. The loop ends by the \<^verbatim>\<open>break\<close> of the convergence check, unless a
  \<^verbatim>\<open>KeyboardInterrupt\<close> strikes in the anomaly detection that runs between the append
  and the check, which ends the loop as well. Two identical vectors of
  \<open>extract_features\<close> are a special case.
\<close>

theorem scan_loop_quits_on_no_improvement:
  assumes "popen env = Inr ()" and "sleep_scan env = Inr ()"
    and "terminate_and_collect env = Inr stdout"
    and "analyze_scan_output stdout = Inr report"
    and "extract_features stdout = Inr feature_vector"
    and "aggregated_features st \<noteq> []"
    and "length (last (aggregated_features st)) = 5"
    and "\<forall>i<5. \<bar>feature_vector ! i - last (aggregated_features st) ! i\<bar> < 1 / 10 ^ 6"
  shows "\<exists>exit.
     scan_loop forest st (env # envs) = Some (exit, envs) \<and>
     (exit = Quit_no_improvement
               (st\<lparr>aggregated_features := aggregated_features st @ [feature_vector]\<rparr>) \<or>
      exit = Interrupted_by_user) \<and>
     (perform_ml_analysis forest feature_vector (aggregated_features st @ [feature_vector])
        \<noteq> Inl KeyboardInterrupt
      \<longrightarrow> exit = Quit_no_improvement
                  (st\<lparr>aggregated_features := aggregated_features st @ [feature_vector]\<rparr>))"
proof -
  have n: "no_improvement (aggregated_features st @ [feature_vector])"
    using assms(6) extract_features_length [OF assms(5)] assms(7,8)
    by (rule no_improvement_appended)
  show ?thesis
  proof (cases "perform_ml_analysis forest feature_vector
      (aggregated_features st @ [feature_vector])")
    case (Inl e)
    then have "e = KeyboardInterrupt" by (rule perform_ml_analysis_raises)
    with Inl show ?thesis
      by (simp add: scan_cycle_def bind_exc_def assms(1-5) Let_def)
  next
    case (Inr ml_report)
    then show ?thesis
      by (simp add: scan_cycle_def bind_exc_def assms(1-5) n Let_def)
  qed
qed

theorem scan_loop_quits_on_no_improvement_witness:
  "aggregated_features \<lparr>aggregated_features = [[0, 0, 0, 0, 0]], cycle = 0\<rparr> \<noteq> [] \<and>
   extract_features [] = Inr [0, 0, 0, 0, 0] \<and>
   scan_loop None \<lparr>aggregated_features = [[0, 0, 0, 0, 0]], cycle = 0\<rparr>
     [\<lparr>popen = Inr (), sleep_scan = Inr (), kill_sigterm = Inr (),
       communicate_first = Inr [], kill_sigkill = Inr (), communicate_final = Inr [],
       sleep_pause = Inr ()\<rparr>,
      \<lparr>popen = Inl OtherException, sleep_scan = Inr (), kill_sigterm = Inr (),
       communicate_first = Inr [], kill_sigkill = Inr (), communicate_final = Inr [],
       sleep_pause = Inr ()\<rparr>] =
   Some (Quit_no_improvement
           \<lparr>aggregated_features = [[0, 0, 0, 0, 0], [0, 0, 0, 0, 0]], cycle = 0\<rparr>,
     [\<lparr>popen = Inl OtherException, sleep_scan = Inr (), kill_sigterm = Inr (),
       communicate_first = Inr [], kill_sigkill = Inr (), communicate_final = Inr [],
       sleep_pause = Inr ()\<rparr>])"
proof -
  let ?env = "\<lparr>popen = Inr (), sleep_scan = Inr (), kill_sigterm = Inr (),
       communicate_first = Inr [], kill_sigkill = Inr (), communicate_final = Inr [],
       sleep_pause = Inr ()\<rparr>"
  let ?st = "\<lparr>aggregated_features = [[0, 0, 0, 0, 0 :: real]], cycle = 0\<rparr>"
  have t: "terminate_and_collect ?env = Inr []"
    by (simp add: terminate_and_collect_def bind_exc_def)
  obtain report where a: "analyze_scan_output [] = Inr report"
    using analyze_scan_output_returns [of "[]"] by (auto simp: findall_def)
  have e: "extract_features [] = Inr [0, 0, 0, 0, 0]"
    by (simp add: extract_features_def findall_def bind_exc_def)
  have m: "perform_ml_analysis None [0, 0, 0, 0, 0] [[0, 0, 0, 0, 0], [0, 0, 0, 0, 0]]
      \<noteq> Inl KeyboardInterrupt"
    by (simp add: perform_ml_analysis_def)
  from scan_loop_quits_on_no_improvement
    [of ?env "[]" report "[0, 0, 0, 0, 0]" ?st None, OF _ _ t a e]
    m e
  show ?thesis by auto
qed





end
